theory Spec2Isabelle
  imports Main "HOL-Library.Word" "HOL-Library.Char_ord" "HOL-Library.List_Lexorder"
    "HOL-Library.Multiset"
begin

section \<open>Strings and URL values\<close>

text \<open>
  Go strings are byte sequences; they are modelled as \<^typ>\<open>string\<close>, whose characters are
  bytes. \<open>strings.TrimLeft\<close>, \<open>strings.TrimRight\<close> and \<open>strings.Trim\<close> remove every
  leading (trailing) byte that occurs in the cut set; \<open>strings.Join\<close> concatenates with a
  separator; \<open>strings.Replace(s, old, new, -1)\<close> is only used with a one-byte \<open>old\<close>.
\<close>

definition TrimLeft :: "string \<Rightarrow> string \<Rightarrow> string" where
  "TrimLeft s cutset = dropWhile (\<lambda>c. c \<in> set cutset) s"

definition TrimRight :: "string \<Rightarrow> string \<Rightarrow> string" where
  "TrimRight s cutset = rev (dropWhile (\<lambda>c. c \<in> set cutset) (rev s))"

definition Trim :: "string \<Rightarrow> string \<Rightarrow> string" where
  "Trim s cutset = TrimRight (TrimLeft s cutset) cutset"

fun Join :: "string list \<Rightarrow> string \<Rightarrow> string" where
  "Join [] sep = []"
| "Join [x] sep = x"
| "Join (x # y # ys) sep = x @ sep @ Join (y # ys) sep"

definition ReplaceChar :: "string \<Rightarrow> char \<Rightarrow> string \<Rightarrow> string" where
  "ReplaceChar s old new = concat (map (\<lambda>c. if c = old then new else [c]) s)"

text \<open>
  \<open>url.Values\<close> is \<open>map[string][]string\<close>. It is kept as an association list with one
  entry per key; \<open>Add\<close> appends the value to the key's slice.
\<close>

type_synonym Values = "(string \<times> string list) list"

fun Values_Add :: "Values \<Rightarrow> string \<Rightarrow> string \<Rightarrow> Values" where
  "Values_Add [] key val = [(key, [val])]"
| "Values_Add ((k, vs) # m) key val =
     (if k = key then (k, vs @ [val]) # m else (k, vs) # Values_Add m key val)"

text \<open>
  \<open>url.QueryEscape\<close> keeps letters, digits and \<open>-_.~\<close>, writes a space as \<open>+\<close> and
  every other byte as \<open>%XX\<close> with upper-case hexadecimal digits. \<open>Values.Encode\<close> writes
  \<open>key=value\<close> for every value of every key, the keys sorted, joined by \<open>&\<close>.
\<close>

definition isAlnum :: "char \<Rightarrow> bool" where
  "isAlnum c =
     ((CHR ''a'' \<le> c \<and> c \<le> CHR ''z'') \<or> (CHR ''A'' \<le> c \<and> c \<le> CHR ''Z'')
      \<or> (CHR ''0'' \<le> c \<and> c \<le> CHR ''9''))"

definition shouldEscape :: "char \<Rightarrow> bool" where
  "shouldEscape c = (\<not> (isAlnum c \<or> c \<in> set ''-_.~''))"

definition upperhex :: string where
  "upperhex = ''0123456789ABCDEF''"

definition escapeByte :: "char \<Rightarrow> string" where
  "escapeByte c =
     (if shouldEscape c then
        (if c = CHR '' '' then ''+''
         else [CHR ''%'', upperhex ! (of_char c div 16), upperhex ! (of_char c mod 16)])
      else [c])"

definition QueryEscape :: "string \<Rightarrow> string" where
  "QueryEscape s = concat (map escapeByte s)"

definition Values_Encode :: "Values \<Rightarrow> string" where
  "Values_Encode v =
     Join (concat (map (\<lambda>k. map (\<lambda>val. QueryEscape k @ ''='' @ QueryEscape val)
                                 (case map_of v k of None \<Rightarrow> [] | Some vs \<Rightarrow> vs))
                       (sort (map fst v)))) ''&''"

section \<open>Filters (work-package.go)\<close>

text \<open>\<open>SearchOperator\<close> is an \<open>int32\<close> with eight named constants.\<close>

type_synonym SearchOperator = "32 word"

definition Equal :: SearchOperator where "Equal = 0"
definition Different :: SearchOperator where "Different = 1"
definition GreaterThan :: SearchOperator where "GreaterThan = 2"
definition LowerThan :: SearchOperator where "LowerThan = 3"
definition SearchString :: SearchOperator where "SearchString = 4"
definition Like :: SearchOperator where "Like = 5"
definition GreaterOrEqual :: SearchOperator where "GreaterOrEqual = 6"
definition LowerOrEqual :: SearchOperator where "LowerOrEqual = 7"

lemmas SearchOperator_defs =
  Equal_def Different_def GreaterThan_def LowerThan_def SearchString_def Like_def
  GreaterOrEqual_def LowerOrEqual_def

definition paramFilters :: string where
  "paramFilters = ''filters''"

record OptionsFields =
  Field :: string
  Operator :: SearchOperator
  Value :: string

record FilterOptions =
  Fields :: "OptionsFields list"

text \<open>
  \<open>interpretOperator\<close> starts from \<open>"="\<close> and has a \<open>switch\<close> with three cases
  (\<open>GreaterThan\<close>, \<open>LowerThan\<close>, \<open>Different\<close>); every other value keeps \<open>"="\<close>.
\<close>

definition interpretOperator :: "SearchOperator \<Rightarrow> string" where
  "interpretOperator operator =
     (if operator = GreaterThan then ''>''
      else if operator = LowerThan then ''<''
      else if operator = Different then ''<>''
      else ''='')"

text \<open>
  The operator symbols that the comments on the eight constants document
  (\<open>'='\<close>, \<open>'<>'\<close>, \<open>'>'\<close>, \<open>'<'\<close>, \<open>'**'\<close>, \<open>'~'\<close>, \<open>'>='\<close>, \<open>'<='\<close>).
\<close>

definition documentedOperator :: "SearchOperator \<Rightarrow> string" where
  "documentedOperator operator =
     (if operator = Equal then ''=''
      else if operator = Different then ''<>''
      else if operator = GreaterThan then ''>''
      else if operator = LowerThan then ''<''
      else if operator = SearchString then ''**''
      else if operator = Like then ''~''
      else if operator = GreaterOrEqual then ''>=''
      else if operator = LowerOrEqual then ''<=''
      else ''='')"

text \<open>
  The \<open>fmt.Sprintf\<close> of \<open>prepareFilters\<close>: the three arguments are strings, and \<open>%v\<close>
  inserts a string as it is.
\<close>

definition filterObject :: "string \<Rightarrow> string \<Rightarrow> string \<Rightarrow> string" where
  \<open>filterObject field operator val =
     ''{"'' @ field @ ''":{"operator":"'' @ operator @ ''","values":["'' @ val @ ''"]}}''\<close>

definition prepareFilters :: "FilterOptions \<Rightarrow> Values" where
  "prepareFilters fops =
     (let filterTemplate =
            foldl (\<lambda>filterTemplate field.
                     filterTemplate @
                     filterObject (Field field) (interpretOperator (Operator field))
                       (OptionsFields.Value field))
              ''['' (Fields fops);
          filterTemplate = filterTemplate @ '']''
      in Values_Add [] paramFilters filterTemplate)"

subsection \<open>Properties of the filter serialization\<close>

lemma interpretOperator_documented:
  "interpretOperator Equal = documentedOperator Equal"
  "interpretOperator Different = documentedOperator Different"
  "interpretOperator GreaterThan = documentedOperator GreaterThan"
  "interpretOperator LowerThan = documentedOperator LowerThan"
  by (simp_all add: interpretOperator_def documentedOperator_def SearchOperator_defs)

lemma prepareFilters_status_open:
  \<open>prepareFilters \<lparr>Fields = [\<lparr>Field = ''status'', Operator = Equal, Value = ''open''\<rparr>]\<rparr>
     = [(''filters'', [''[{"status":{"operator":"=","values":["open"]}}]''])]\<close>
  by (simp add: prepareFilters_def filterObject_def interpretOperator_def paramFilters_def
      SearchOperator_defs)

text \<open>
  C5. The claim asks for the symbols \<open>**\<close>, \<open>~\<close>, \<open>>=\<close>, \<open><=\<close> for the operators
  contains-string, like, greater-or-equal and less-or-equal, and for a JSON array with one
  object per triple. The code serializes all four of these operators as \<open>=\<close>, and it puts
  no comma between the objects of two triples.
\<close>

theorem prepareFilters_operator_defect:
  \<open>interpretOperator SearchString = ''='' \<and> interpretOperator Like = ''=''
   \<and> interpretOperator GreaterOrEqual = ''='' \<and> interpretOperator LowerOrEqual = ''=''
   \<and> documentedOperator Like = ''~''
   \<and> prepareFilters \<lparr>Fields = [\<lparr>Field = ''subject'', Operator = Like, Value = ''x''\<rparr>]\<rparr>
       = [(''filters'', [''[{"subject":{"operator":"=","values":["x"]}}]''])]
   \<and> prepareFilters \<lparr>Fields = [\<lparr>Field = ''a'', Operator = Equal, Value = ''1''\<rparr>,
                               \<lparr>Field = ''b'', Operator = Equal, Value = ''2''\<rparr>]\<rparr>
       = [(''filters'',
           [''[{"a":{"operator":"=","values":["1"]}}{"b":{"operator":"=","values":["2"]}}]''])]\<close>
  by (simp add: prepareFilters_def filterObject_def interpretOperator_def paramFilters_def
      documentedOperator_def SearchOperator_defs)

section \<open>HTTP data (the parts of \<open>net/http\<close> and \<open>net/url\<close> that the client uses)\<close>

record URL =
  Scheme :: string
  Host :: string
  Path :: string
  RawQuery :: string

text \<open>
  \<open>http.Header\<close> is \<open>map[string][]string\<close>. \<open>Set\<close> replaces the key's slice by a
  one-element slice, \<open>Get\<close> returns the first value of the key or the empty string. The keys
  used here are already in canonical form.
\<close>

type_synonym Header = "(string \<times> string list) list"

fun Header_Set :: "Header \<Rightarrow> string \<Rightarrow> string \<Rightarrow> Header" where
  "Header_Set [] key val = [(key, [val])]"
| "Header_Set ((k, vs) # h) key val =
     (if k = key then (k, [val]) # h else (k, vs) # Header_Set h key val)"

definition Header_Get :: "Header \<Rightarrow> string \<Rightarrow> string" where
  "Header_Get h key =
     (case map_of h key of None \<Rightarrow> [] | Some [] \<Rightarrow> [] | Some (v # vs) \<Rightarrow> v)"

record Cookie =
  Name :: string
  Value :: string

text \<open>
  The \<open>http.Request\<close> struct. Its \<open>Header\<close> field is a map, that is a reference; the
  record leaves the type of that field open. The request builder and the dispatcher never
  share a header between two requests and are modelled with the header's contents in the
  field (\<open>Request\<close>); the round trippers, which copy requests, are modelled with a store
  and the address of the map in the field.
\<close>

record 'h http_Request =
  Method :: string
  URL :: URL
  Header :: 'h
  Body :: "string option"

type_synonym Request = "Header http_Request"

text \<open>
  A received \<open>http.Response\<close>: the status code, what reading the body stream to its end
  gives (\<open>None\<close> when the read fails), and the cookies of its \<open>Set-Cookie\<close> headers.
\<close>

record http_Response =
  StatusCode :: int
  Body :: "string option"
  SetCookies :: "Cookie list"

datatype error =
    ErrURLParse string
  | ErrNewRequest string
  | ErrJSONEncode
  | ErrTransport string
  | ErrStatus int
  | ErrJSONDecode
  | ErrNullClient
  | ErrReadData
  | ErrUnmarshal
  | ErrWrap error string
  | ErrOpenProject error
  | ErrParseTime string

text \<open>
  A call either returns or panics (a nil pointer dereference is a run-time panic in Go).
\<close>

datatype 'a outcome = Panic | Returns 'a

text \<open>
  \<open>req.AddCookie(c)\<close> writes \<open>name=value\<close> into the \<open>Cookie\<close> header, after \<open>"; "\<close> when
  the header already has a value. (The sanitizing of name and value is left out.)
  \<open>req.SetBasicAuth\<close> sets \<open>Authorization\<close> to \<open>"Basic "\<close> and the base64 encoding of
  \<open>username:password\<close>; the encoder is a parameter.
\<close>

definition Cookie_String :: "Cookie \<Rightarrow> string" where
  "Cookie_String c = Name c @ ''='' @ Cookie.Value c"

definition AddCookie :: "Header \<Rightarrow> Cookie \<Rightarrow> Header" where
  "AddCookie h c =
     (let s = Cookie_String c; old = Header_Get h ''Cookie''
      in if old \<noteq> [] then Header_Set h ''Cookie'' (old @ ''; '' @ s)
         else Header_Set h ''Cookie'' s)"

definition SetBasicAuth :: "(string \<Rightarrow> string) \<Rightarrow> Header \<Rightarrow> string \<Rightarrow> string \<Rightarrow> Header" where
  "SetBasicAuth base64 h user pass =
     Header_Set h ''Authorization'' (''Basic '' @ base64 (user @ '':'' @ pass))"

section \<open>Decoded objects\<close>

text \<open>
  The dynamic types that travel through \<open>interface{}\<close> values. The field schemas of the
  resources are not needed: a resource keeps the members set in it, and \<open>new(T)\<close> has none.
  The list envelopes carry the four paging fields next to their elements. Of the list
  types only \<open>SearchResultWP\<close> and \<open>searchResultUser\<close> are declared in the sources at
  hand; the others are given the same shape.
\<close>

type_synonym fields = "(string \<times> string) list"

record SearchResult =
  Elements :: "fields list"
  total :: int
  count :: int
  pageSize :: int
  offset :: int

definition new_SearchResult :: SearchResult where
  "new_SearchResult = \<lparr>Elements = [], total = 0, count = 0, pageSize = 0, offset = 0\<rparr>"

datatype object =
    Attachment fields
  | Category fields
  | Project fields
  | Query fields
  | Status fields
  | User fields
  | WikiPage fields
  | WorkPackage fields
  | CategoryList SearchResult
  | SearchResultProject SearchResult
  | SearchResultQuery SearchResult
  | SearchResultStatus SearchResult
  | SearchResultUser SearchResult
  | SearchResultWP SearchResult
  | searchResultUser SearchResult

section \<open>The library functions the client calls\<close>

text \<open>
  \<open>url.Parse\<close>, \<open>URL.ResolveReference\<close>, \<open>URL.String\<close>, the JSON encoder, the
  streaming decoder (\<open>json.NewDecoder(r).Decode\<close>), \<open>json.Unmarshal\<close> and the base64
  encoder are parameters of the model. A decoder gets the body and the object to fill and
  returns its error and the object as it has left it.
\<close>

record lib =
  url_Parse :: "string \<Rightarrow> error + URL"
  url_ResolveReference :: "URL \<Rightarrow> URL \<Rightarrow> URL"
  url_String :: "URL \<Rightarrow> string"
  json_Encode :: "object \<Rightarrow> error + string"
  json_Decode :: "string \<Rightarrow> object \<Rightarrow> error option \<times> object"
  json_Unmarshal :: "string \<Rightarrow> object \<Rightarrow> error option \<times> object"
  base64_Encode :: "string \<Rightarrow> string"

section \<open>Client\<close>

text \<open>
  Modelled from the spec: the declaration of \<open>authType\<close> and of its constants is not among
  the sources, only the comparisons with \<open>authTypeSession\<close> and \<open>authTypeBasic\<close> are; the
  type is the set of values those comparisons tell apart (one active strategy per client).
\<close>

datatype authT = authTypeUnset | authTypeBasic | authTypeSession

record AuthenticationService =
  authType :: authT
  username :: string
  password :: string

record Session =
  Cookies :: "Cookie list"

text \<open>
  The \<open>httpClient\<close> of a client answers a request with a transport error or a response.
\<close>

record Client =
  client :: "Request \<Rightarrow> error + http_Response"
  baseURL :: URL
  session :: "Session option"
  Authentication :: AuthenticationService

text \<open>
  Modelled from the spec: \<open>newRequestWithContext\<close> is not among the sources. It stands for
  \<open>http.NewRequestWithContext\<close>, which parses the URL string and returns a request with the
  method, the URL, an empty header and the body.
\<close>

definition newRequestWithContext ::
  "'a lib_scheme \<Rightarrow> string \<Rightarrow> string \<Rightarrow> string option \<Rightarrow> error + Request" where
  "newRequestWithContext L method urlStr body =
     (case url_Parse L urlStr of
        Inl err \<Rightarrow> Inl err
      | Inr u \<Rightarrow> Inr \<lparr>Method = method, URL = u, Header = [], Body = body\<rparr>)"

text \<open>The block "Set authentication information" shared by the request builders.\<close>

definition setAuthentication :: "lib \<Rightarrow> Client \<Rightarrow> Request \<Rightarrow> Request" where
  "setAuthentication L c req =
     (if authType (Authentication c) = authTypeSession then
        (case session c of
           None \<Rightarrow> req
         | Some s \<Rightarrow> req\<lparr>Header := foldl AddCookie (Header req) (Cookies s)\<rparr>)
      else if authType (Authentication c) = authTypeBasic then
        (if username (Authentication c) \<noteq> [] then
           req\<lparr>Header := SetBasicAuth (base64_Encode L) (Header req)
                             (username (Authentication c)) (password (Authentication c))\<rparr>
         else req)
      else req)"

text \<open>
  \<open>NewRequestWithContext\<close> has a pointer receiver. With a nil receiver the call still
  parses \<open>urlStr\<close> and returns its error; the first use of the receiver, \<open>c.baseURL\<close>,
  panics.
\<close>

definition NewRequestWithContext ::
  "lib \<Rightarrow> Client option \<Rightarrow> string \<Rightarrow> string \<Rightarrow> object option \<Rightarrow> (error + Request) outcome" where
  "NewRequestWithContext L c method urlStr body =
     (case url_Parse L urlStr of
        Inl err \<Rightarrow> Returns (Inl err)
      | Inr rel \<Rightarrow>
          (case c of
             None \<Rightarrow> Panic
           | Some c \<Rightarrow>
               (let rel = rel\<lparr>Path := TrimLeft (Path rel) ''/''\<rparr>;
                    u = url_ResolveReference L (baseURL c) rel
                in case (case body of None \<Rightarrow> Inr None
                         | Some b \<Rightarrow> map_sum id Some (json_Encode L b)) of
                     Inl err \<Rightarrow> Returns (Inl err)
                   | Inr buf \<Rightarrow>
                       (case newRequestWithContext L method (url_String L u) buf of
                          Inl err \<Rightarrow> Returns (Inl err)
                        | Inr req \<Rightarrow>
                            Returns (Inr (setAuthentication L c
                              (req\<lparr>Header :=
                                 Header_Set (Header req) ''Content-Type'' ''application/json''\<rparr>)))))))"

text \<open>\<open>NewRawRequestWithContext\<close> takes the body as a reader and does not encode it.\<close>

definition NewRawRequestWithContext ::
  "lib \<Rightarrow> Client option \<Rightarrow> string \<Rightarrow> string \<Rightarrow> string option \<Rightarrow> (error + Request) outcome" where
  "NewRawRequestWithContext L c method urlStr body =
     (case url_Parse L urlStr of
        Inl err \<Rightarrow> Returns (Inl err)
      | Inr rel \<Rightarrow>
          (case c of
             None \<Rightarrow> Panic
           | Some c \<Rightarrow>
               (let rel = rel\<lparr>Path := TrimLeft (Path rel) ''/''\<rparr>;
                    u = url_ResolveReference L (baseURL c) rel
                in case newRequestWithContext L method (url_String L u) body of
                     Inl err \<Rightarrow> Returns (Inl err)
                   | Inr req \<Rightarrow>
                       Returns (Inr (setAuthentication L c
                         (req\<lparr>Header :=
                            Header_Set (Header req) ''Content-Type'' ''application/json''\<rparr>))))))"

subsection \<open>Responses\<close>

definition CheckResponse :: "http_Response \<Rightarrow> error option" where
  "CheckResponse r =
     (let c = StatusCode r
      in if 200 \<le> c \<and> c \<le> 299 then None else Some (ErrStatus (StatusCode r)))"

record Response =
  Response :: http_Response
  Total :: int
  Count :: int
  PageSize :: int
  Offset :: int

definition populatePageValues :: "Response \<Rightarrow> object option \<Rightarrow> Response" where
  "populatePageValues r v =
     (case v of
        Some (SearchResultWP val) \<Rightarrow>
          r\<lparr>Total := total val, Count := count val, PageSize := pageSize val, Offset := offset val\<rparr>
      | Some (SearchResultUser val) \<Rightarrow>
          r\<lparr>Total := total val, Count := count val, PageSize := pageSize val, Offset := offset val\<rparr>
      | Some (SearchResultQuery val) \<Rightarrow>
          r\<lparr>Total := total val, Count := count val, PageSize := pageSize val, Offset := offset val\<rparr>
      | _ \<Rightarrow> r)"

definition newResponse :: "http_Response \<Rightarrow> object option \<Rightarrow> Response" where
  "newResponse r v =
     populatePageValues \<lparr>Response = r, Total = 0, Count = 0, PageSize = 0, Offset = 0\<rparr> v"

text \<open>
  \<open>Do\<close> returns the response wrapper and the error; the object behind \<open>v\<close> is filled in
  place, so the model returns it as well. A body that cannot be read makes the decoder fail.
\<close>

definition decodeBody :: "lib \<Rightarrow> http_Response \<Rightarrow> object \<Rightarrow> error option \<times> object" where
  "decodeBody L httpResp v =
     (case http_Response.Body httpResp of
        None \<Rightarrow> (Some ErrReadData, v)
      | Some b \<Rightarrow> json_Decode L b v)"

definition Do ::
  "lib \<Rightarrow> Client \<Rightarrow> Request \<Rightarrow> object option \<Rightarrow> object option \<times> Response option \<times> error option" where
  "Do L c req v =
     (case client c req of
        Inl err \<Rightarrow> (v, None, Some err)
      | Inr httpResp \<Rightarrow>
          (case CheckResponse httpResp of
             Some err \<Rightarrow> (v, Some (newResponse httpResp None), Some err)
           | None \<Rightarrow>
               (case v of
                  None \<Rightarrow> (None, Some (newResponse httpResp None), None)
                | Some x \<Rightarrow>
                    (let (err, x') = decodeBody L httpResp x
                     in (Some x', Some (newResponse httpResp (Some x')), err)))))"

section \<open>Generic dispatch\<close>

text \<open>
  A service handle is a pointer to a service struct whose only field is the pointer to its
  client. \<open>OtherHandle\<close> stands for every other dynamic type of the \<open>interface{}\<close>
  argument, the nil interface included.
\<close>

datatype service =
    AttachmentService "Client option"
  | CategoryService "Client option"
  | ProjectService "Client option"
  | QueryService "Client option"
  | StatusService "Client option"
  | UserService "Client option"
  | WikiPageService "Client option"
  | WorkPackageService "Client option"
  | OtherHandle

text \<open>
  Modelled from the spec: \<open>NewOpenProjectError\<close> is not among the sources; the error it
  builds from the response and the HTTP error is kept as a wrapper of the latter.
\<close>

definition NewOpenProjectError :: "Response option \<Rightarrow> error \<Rightarrow> error" where
  "NewOpenProjectError resp err = ErrOpenProject err"

fun getObjectAndClient :: "service \<Rightarrow> Client option \<times> object option" where
  "getObjectAndClient (AttachmentService c) = (c, Some (Attachment []))"
| "getObjectAndClient (CategoryService c) = (c, Some (Category []))"
| "getObjectAndClient (ProjectService c) = (c, Some (Project []))"
| "getObjectAndClient (QueryService c) = (c, Some (Query []))"
| "getObjectAndClient (StatusService c) = (c, Some (Status []))"
| "getObjectAndClient (UserService c) = (c, Some (User []))"
| "getObjectAndClient (WikiPageService c) = (c, Some (WikiPage []))"
| "getObjectAndClient (WorkPackageService c) = (c, Some (WorkPackage []))"
| "getObjectAndClient OtherHandle = (None, None)"

fun getObjectListAndClient :: "service \<Rightarrow> Client option \<times> object option" where
  "getObjectListAndClient (AttachmentService c) = (c, None)"
| "getObjectListAndClient (CategoryService c) = (c, Some (CategoryList new_SearchResult))"
| "getObjectListAndClient (ProjectService c) = (c, Some (SearchResultProject new_SearchResult))"
| "getObjectListAndClient (QueryService c) = (c, Some (SearchResultQuery new_SearchResult))"
| "getObjectListAndClient (StatusService c) = (c, Some (SearchResultStatus new_SearchResult))"
| "getObjectListAndClient (UserService c) = (c, Some (SearchResultUser new_SearchResult))"
| "getObjectListAndClient (WorkPackageService c) = (c, Some (SearchResultWP new_SearchResult))"
| "getObjectListAndClient (WikiPageService c) = (None, None)"
| "getObjectListAndClient OtherHandle = (None, None)"

text \<open>
  \<open>client.Do\<close> through a pointer: with a nil receiver the first statement, \<open>c.client.Do\<close>,
  panics.
\<close>

definition Client_Do ::
  "lib \<Rightarrow> Client option \<Rightarrow> Request \<Rightarrow> object option
     \<Rightarrow> (object option \<times> Response option \<times> error option) outcome" where
  "Client_Do L c req v = (case c of None \<Rightarrow> Panic | Some c \<Rightarrow> Returns (Do L c req v))"

text \<open>
  Each generic operation returns its outcome together with the requests it has handed to the
  HTTP client, in order.
\<close>

type_synonym dispatched = "(object option \<times> Response option \<times> error option) outcome \<times> Request list"

definition GetWithContext :: "lib \<Rightarrow> service \<Rightarrow> string \<Rightarrow> dispatched" where
  "GetWithContext L objService apiEndPoint =
     (let (client, resultObj) = getObjectAndClient objService;
          apiEndPoint = TrimRight apiEndPoint ''/''
      in if client = None then (Returns (None, None, Some ErrNullClient), [])
         else
           (case NewRequestWithContext L client ''GET'' apiEndPoint None of
              Panic \<Rightarrow> (Panic, [])
            | Returns (Inl err) \<Rightarrow> (Returns (None, None, Some err), [])
            | Returns (Inr req) \<Rightarrow>
                (case Client_Do L client req resultObj of
                   Panic \<Rightarrow> (Panic, [])
                 | Returns (v, resp, Some err) \<Rightarrow>
                     (Returns (None, resp, Some (NewOpenProjectError resp err)), [req])
                 | Returns (v, resp, None) \<Rightarrow> (Returns (v, resp, None), [req]))))"

definition GetListWithContext ::
  "lib \<Rightarrow> service \<Rightarrow> string \<Rightarrow> FilterOptions option \<Rightarrow> dispatched" where
  "GetListWithContext L objService apiEndPoint options =
     (let (client, resultObjList) = getObjectListAndClient objService;
          apiEndPoint = TrimRight apiEndPoint ''/''
      in case NewRequestWithContext L client ''GET'' apiEndPoint None of
           Panic \<Rightarrow> (Panic, [])
         | Returns (Inl err) \<Rightarrow> (Returns (None, None, Some err), [])
         | Returns (Inr req) \<Rightarrow>
             (let req = (case options of
                           None \<Rightarrow> req
                         | Some fops \<Rightarrow>
                             req\<lparr>URL := (URL req)\<lparr>RawQuery := Values_Encode (prepareFilters fops)\<rparr>\<rparr>)
              in case Client_Do L client req resultObjList of
                   Panic \<Rightarrow> (Panic, [])
                 | Returns (v, resp, Some err) \<Rightarrow>
                     (Returns (None, resp, Some (NewOpenProjectError resp err)), [req])
                 | Returns (v, resp, None) \<Rightarrow> (Returns (v, resp, None), [req])))"

text \<open>
  \<open>CreateWithContext\<close> passes \<open>nil\<close> as the object of \<open>Do\<close>, then reads the body of the
  response with \<open>ioutil.ReadAll\<close> and fills \<open>resultObj\<close> with \<open>json.Unmarshal\<close>.
\<close>

definition CreateWithContext :: "lib \<Rightarrow> service \<Rightarrow> string \<Rightarrow> dispatched" where
  "CreateWithContext L objService apiEndPoint =
     (let (client, resultObj) = getObjectAndClient objService
      in case NewRequestWithContext L client ''POST'' apiEndPoint resultObj of
           Panic \<Rightarrow> (Panic, [])
         | Returns (Inl err) \<Rightarrow> (Returns (None, None, Some err), [])
         | Returns (Inr req) \<Rightarrow>
             (case Client_Do L client req None of
                Panic \<Rightarrow> (Panic, [])
              | Returns (v, resp, Some err) \<Rightarrow> (Returns (None, resp, Some err), [req])
              | Returns (v, None, None) \<Rightarrow> (Panic, [req])
              | Returns (v, Some resp, None) \<Rightarrow>
                  (case http_Response.Body (Response resp) of
                     None \<Rightarrow> (Returns (None, Some resp, Some ErrReadData), [req])
                   | Some data \<Rightarrow>
                       (case resultObj of
                          None \<Rightarrow> (Returns (None, Some resp, Some ErrUnmarshal), [req])
                        | Some obj \<Rightarrow>
                            (case json_Unmarshal L data obj of
                               (Some err, obj') \<Rightarrow>
                                 (Returns (None, Some resp, Some ErrUnmarshal), [req])
                             | (None, obj') \<Rightarrow> (Returns (Some obj', Some resp, None), [req]))))))"

definition DeleteWithContext ::
  "lib \<Rightarrow> service \<Rightarrow> string \<Rightarrow> (Response option \<times> error option) outcome \<times> Request list" where
  "DeleteWithContext L objService apiEndPoint =
     (let (client, uu) = getObjectAndClient objService;
          apiEndPoint = TrimRight apiEndPoint ''/''
      in case NewRequestWithContext L client ''DELETE'' apiEndPoint None of
           Panic \<Rightarrow> (Panic, [])
         | Returns (Inl err) \<Rightarrow> (Returns (None, Some err), [])
         | Returns (Inr req) \<Rightarrow>
             (case Client_Do L client req None of
                Panic \<Rightarrow> (Panic, [])
              | Returns (v, resp, err) \<Rightarrow> (Returns (resp, err), [req])))"


subsection \<open>A sample environment\<close>

text \<open>
  A small instance of the library functions, a client whose HTTP client answers every
  request with a given response, and some requests and responses. They are used to
  evaluate the operations at concrete inputs.
\<close>

definition sampleParse :: "string \<Rightarrow> error + URL" where
  "sampleParse s =
     (if list_ex (\<lambda>c. c < CHR 0x20) s then Inl (ErrURLParse s)
      else
        (let pre = takeWhile (\<lambda>c. c \<noteq> CHR ''?'') s;
             q = drop 1 (dropWhile (\<lambda>c. c \<noteq> CHR ''?'') s)
         in if take 7 pre = ''http://'' then
              Inr \<lparr>Scheme = ''http'', Host = takeWhile (\<lambda>c. c \<noteq> CHR ''/'') (drop 7 pre),
                   Path = dropWhile (\<lambda>c. c \<noteq> CHR ''/'') (drop 7 pre), RawQuery = q\<rparr>
            else Inr \<lparr>Scheme = [], Host = [], Path = pre, RawQuery = q\<rparr>))"

definition sampleLib :: lib where
  "sampleLib =
     \<lparr>url_Parse = sampleParse,
      url_ResolveReference = (\<lambda>b r. r\<lparr>Scheme := Scheme b, Host := Host b, Path := Path b @ Path r\<rparr>),
      url_String = (\<lambda>u. Scheme u @ ''://'' @ Host u @ Path u
                          @ (if RawQuery u = [] then [] else ''?'' @ RawQuery u)),
      json_Encode = (\<lambda>v. Inr ''{}''),
      json_Decode = (\<lambda>b v. if b = ''{}'' then (None, v) else (Some ErrJSONDecode, v)),
      json_Unmarshal = (\<lambda>b v. if b = ''{}'' then (None, v) else (Some ErrJSONDecode, v)),
      base64_Encode = id\<rparr>"

definition sampleClient :: "http_Response \<Rightarrow> Client" where
  "sampleClient r =
     \<lparr>client = (\<lambda>req. Inr r),
      baseURL = \<lparr>Scheme = ''http'', Host = ''localhost'', Path = ''/'', RawQuery = []\<rparr>,
      session = None,
      Authentication = \<lparr>authType = authTypeBasic, username = [], password = []\<rparr>\<rparr>"

definition notFound :: http_Response where
  "notFound = \<lparr>StatusCode = 404, Body = Some ''not found'', SetCookies = []\<rparr>"

definition getRequest :: Request where
  "getRequest =
     \<lparr>Method = ''GET'',
      URL = \<lparr>Scheme = ''http'', Host = ''localhost'', Path = ''/api/v3/work_packages/1'',
             RawQuery = []\<rparr>,
      Header = [(''Content-Type'', [''application/json''])], Body = None\<rparr>"

text \<open>
  A decoder that fills the paging fields of whatever list envelope it decodes into, an
  encoder that tells the resource kinds apart, and a client with a user name.
\<close>

definition withPaging :: "object \<Rightarrow> object" where
  "withPaging v =
     (let p = \<lparr>Elements = [], total = 10, count = 5, pageSize = 5, offset = 0\<rparr>
      in case v of
           CategoryList sr \<Rightarrow> CategoryList p
         | SearchResultProject sr \<Rightarrow> SearchResultProject p
         | SearchResultQuery sr \<Rightarrow> SearchResultQuery p
         | SearchResultStatus sr \<Rightarrow> SearchResultStatus p
         | SearchResultUser sr \<Rightarrow> SearchResultUser p
         | SearchResultWP sr \<Rightarrow> SearchResultWP p
         | searchResultUser sr \<Rightarrow> searchResultUser p
         | _ \<Rightarrow> v)"

definition listLib :: lib where
  "listLib = sampleLib\<lparr>json_Decode := (\<lambda>b v. (None, withPaging v))\<rparr>"


definition projectsRequest :: Request where
  "projectsRequest =
     \<lparr>Method = ''GET'',
      URL = \<lparr>Scheme = ''http'', Host = ''localhost'', Path = ''/api/v3/projects'',
             RawQuery = []\<rparr>,
      Header = [(''Content-Type'', [''application/json''])], Body = None\<rparr>"

definition postRequest :: Request where
  "postRequest =
     \<lparr>Method = ''POST'',
      URL = \<lparr>Scheme = ''http'', Host = ''localhost'', Path = ''/api/v3/attachments'',
             RawQuery = []\<rparr>,
      Header = [(''Content-Type'', [''application/json''])], Body = Some ''raw bytes''\<rparr>"

definition adminClient :: Client where
  "adminClient =
     \<lparr>client = (\<lambda>req. Inr \<lparr>StatusCode = 200, Body = Some ''{}'', SetCookies = []\<rparr>),
      baseURL = \<lparr>Scheme = ''http'', Host = ''localhost'', Path = ''/'', RawQuery = []\<rparr>,
      session = None,
      Authentication = \<lparr>authType = authTypeBasic, username = ''admin'',
                        password = ''secret''\<rparr>\<rparr>"

definition okResponse :: http_Response where
  "okResponse = \<lparr>StatusCode = 200, Body = Some ''{}'', SetCookies = []\<rparr>"

subsection \<open>Properties of the request builder, \<open>Do\<close> and the dispatcher\<close>



text \<open>
  C1. For a handle that is none of the eight service types the resolution yields a nil
  client. \<open>GetWithContext\<close> checks for it and returns the "Null client" error without
  building a request. \<open>GetListWithContext\<close>, \<open>CreateWithContext\<close> and \<open>DeleteWithContext\<close>
  have no such check: they call the request builder on the nil client, which returns the
  error of \<open>url.Parse\<close> when the end point does not parse and panics otherwise. No operation
  hands a request to the HTTP client.
\<close>

theorem dispatch_unrecognized_handle:
  "getObjectAndClient OtherHandle = (None, None)
   \<and> getObjectListAndClient OtherHandle = (None, None)
   \<and> GetWithContext L OtherHandle apiEndPoint = (Returns (None, None, Some ErrNullClient), [])
   \<and> GetListWithContext L OtherHandle apiEndPoint options =
       (case url_Parse L (TrimRight apiEndPoint ''/'') of
          Inl err \<Rightarrow> (Returns (None, None, Some err), [])
        | Inr rel \<Rightarrow> (Panic, []))
   \<and> CreateWithContext L OtherHandle apiEndPoint =
       (case url_Parse L apiEndPoint of
          Inl err \<Rightarrow> (Returns (None, None, Some err), [])
        | Inr rel \<Rightarrow> (Panic, []))
   \<and> DeleteWithContext L OtherHandle apiEndPoint =
       (case url_Parse L (TrimRight apiEndPoint ''/'') of
          Inl err \<Rightarrow> (Returns (None, Some err), [])
        | Inr rel \<Rightarrow> (Panic, []))"
  by (simp add: GetWithContext_def GetListWithContext_def CreateWithContext_def
      DeleteWithContext_def NewRequestWithContext_def split: sum.splits)



text \<open>
  C7. \<open>CheckResponse\<close> returns no error exactly for the status codes 200 to 299. When the
  HTTP client answers with a status outside that range, \<open>Do\<close> returns the status error
  together with the wrapper of that very response (its body untouched, the paging fields
  zero), and the object to decode into is left as it was.
\<close>

theorem CheckResponse_status:
  "(CheckResponse r = None \<longleftrightarrow> 200 \<le> StatusCode r \<and> StatusCode r \<le> 299)
   \<and> (client c req = Inr httpResp \<and> \<not> (200 \<le> StatusCode httpResp \<and> StatusCode httpResp \<le> 299)
        \<longrightarrow> Do L c req v =
              (v, Some \<lparr>Response = httpResp, Total = 0, Count = 0, PageSize = 0, Offset = 0\<rparr>,
               Some (ErrStatus (StatusCode httpResp))))"
  by (auto simp: CheckResponse_def Do_def newResponse_def populatePageValues_def Let_def)

theorem CheckResponse_status_witness:
  "CheckResponse notFound = Some (ErrStatus 404)
   \<and> Do sampleLib (sampleClient notFound) getRequest (Some (WorkPackage [])) =
       (Some (WorkPackage []),
        Some \<lparr>Response = notFound, Total = 0, Count = 0, PageSize = 0, Offset = 0\<rparr>,
        Some (ErrStatus 404))"
  using CheckResponse_status [of notFound "sampleClient notFound" getRequest notFound sampleLib
      "Some (WorkPackage [])"]
  by (simp add: notFound_def sampleClient_def CheckResponse_def)

lemma newResponse_other_lists:
  "newResponse r (Some (searchResultUser sr)) =
     \<lparr>Response = r, Total = 0, Count = 0, PageSize = 0, Offset = 0\<rparr>"
  "newResponse r (Some (SearchResultProject sr)) =
     \<lparr>Response = r, Total = 0, Count = 0, PageSize = 0, Offset = 0\<rparr>"
  "newResponse r (Some (SearchResultStatus sr)) =
     \<lparr>Response = r, Total = 0, Count = 0, PageSize = 0, Offset = 0\<rparr>"
  "newResponse r (Some (CategoryList sr)) =
     \<lparr>Response = r, Total = 0, Count = 0, PageSize = 0, Offset = 0\<rparr>"
  by (simp_all add: newResponse_def populatePageValues_def)

text \<open>
  C9 (as amended). After a successful \<open>Do\<close> with an object to decode into: when the decoded object is
  one of the three envelope types of the type switch (\<open>*SearchResultWP\<close>,
  \<open>*SearchResultUser\<close>, \<open>*SearchResultQuery\<close>), the four paging fields of the response
  wrapper are the envelope's; when it is a single resource, they are zero; and when it is
  one of the other list envelopes (\<open>*CategoryList\<close>, \<open>*SearchResultProject\<close>,
  \<open>*SearchResultStatus\<close>, the \<open>*searchResultUser\<close> of the user service), they are zero as
  well, whatever the envelope holds.
\<close>

theorem newResponse_page_values:
  assumes "Do L c req (Some x) = (Some x', Some resp, None)"
  shows "(x' = SearchResultWP sr \<or> x' = SearchResultUser sr \<or> x' = SearchResultQuery sr \<longrightarrow>
            Total resp = total sr \<and> Count resp = count sr \<and> PageSize resp = pageSize sr
            \<and> Offset resp = offset sr)
       \<and> (x' \<in> {Attachment f, Category f, Project f, Query f, Status f, User f, WikiPage f,
                 WorkPackage f} \<longrightarrow>
            Total resp = 0 \<and> Count resp = 0 \<and> PageSize resp = 0 \<and> Offset resp = 0)
       \<and> (x' \<in> {CategoryList sr, SearchResultProject sr, SearchResultStatus sr,
                 searchResultUser sr} \<longrightarrow>
            Total resp = 0 \<and> Count resp = 0 \<and> PageSize resp = 0 \<and> Offset resp = 0)"
  using assms
  by (auto simp: Do_def newResponse_def populatePageValues_def
      split: sum.splits option.splits prod.splits)

theorem newResponse_page_values_witness:
  "Do listLib (sampleClient okResponse) getRequest (Some (SearchResultWP new_SearchResult)) =
     (Some (SearchResultWP \<lparr>Elements = [], total = 10, count = 5, pageSize = 5, offset = 0\<rparr>),
      Some \<lparr>Response = okResponse, Total = 10, Count = 5, PageSize = 5, Offset = 0\<rparr>, None)
   \<and> Do listLib (sampleClient okResponse) getRequest (Some (SearchResultQuery new_SearchResult)) =
     (Some (SearchResultQuery \<lparr>Elements = [], total = 10, count = 5, pageSize = 5, offset = 0\<rparr>),
      Some \<lparr>Response = okResponse, Total = 10, Count = 5, PageSize = 5, Offset = 0\<rparr>, None)
   \<and> Do listLib (sampleClient okResponse) getRequest (Some (WorkPackage [])) =
     (Some (WorkPackage []),
      Some \<lparr>Response = okResponse, Total = 0, Count = 0, PageSize = 0, Offset = 0\<rparr>, None)"
proof -
  let ?p = "\<lparr>Elements = [], total = 10, count = 5, pageSize = 5, offset = 0\<rparr>"
  have a: "Do listLib (sampleClient okResponse) getRequest (Some (SearchResultWP new_SearchResult)) =
     (Some (SearchResultWP ?p), Some (newResponse okResponse (Some (SearchResultWP ?p))), None)"
    by (simp add: Do_def sampleClient_def okResponse_def CheckResponse_def decodeBody_def
        listLib_def sampleLib_def withPaging_def)
  have q: "Do listLib (sampleClient okResponse) getRequest (Some (SearchResultQuery new_SearchResult)) =
     (Some (SearchResultQuery ?p), Some (newResponse okResponse (Some (SearchResultQuery ?p))), None)"
    by (simp add: Do_def sampleClient_def okResponse_def CheckResponse_def decodeBody_def
        listLib_def sampleLib_def withPaging_def)
  have b: "Do listLib (sampleClient okResponse) getRequest (Some (WorkPackage [])) =
     (Some (WorkPackage []), Some (newResponse okResponse (Some (WorkPackage []))), None)"
    by (simp add: Do_def sampleClient_def okResponse_def CheckResponse_def decodeBody_def
        listLib_def sampleLib_def withPaging_def)
  from newResponse_page_values [OF a, of ?p "[]"]
    newResponse_page_values [OF q, of ?p "[]"]
    newResponse_page_values [OF b, of new_SearchResult "[]"]
  show ?thesis
    unfolding a b q
    by (simp add: newResponse_def populatePageValues_def)
qed

text \<open>
  A list of users decoded into \<open>*searchResultUser\<close>, and the list of projects that
  \<open>GetListWithContext\<close> decodes into \<open>*SearchResultProject\<close>, carry total 10, count 5,
  page size 5 and offset 0, and the response wrapper has zero in all four fields.
\<close>

theorem newResponse_page_values_counterexample:
  "Do listLib (sampleClient okResponse) getRequest (Some (searchResultUser new_SearchResult)) =
     (Some (searchResultUser \<lparr>Elements = [], total = 10, count = 5, pageSize = 5, offset = 0\<rparr>),
      Some \<lparr>Response = okResponse, Total = 0, Count = 0, PageSize = 0, Offset = 0\<rparr>, None)
   \<and> GetListWithContext listLib (ProjectService (Some (sampleClient okResponse)))
        ''api/v3/projects'' None =
     (Returns
        (Some (SearchResultProject
                 \<lparr>Elements = [], total = 10, count = 5, pageSize = 5, offset = 0\<rparr>),
         Some \<lparr>Response = okResponse, Total = 0, Count = 0, PageSize = 0, Offset = 0\<rparr>, None),
      [projectsRequest])"
proof -
  let ?p = "\<lparr>Elements = [], total = 10, count = 5, pageSize = 5, offset = 0\<rparr>"
  have a: "Do listLib (sampleClient okResponse) getRequest (Some (searchResultUser new_SearchResult)) =
     (Some (searchResultUser ?p),
      Some \<lparr>Response = okResponse, Total = 0, Count = 0, PageSize = 0, Offset = 0\<rparr>, None)"
    by (simp add: Do_def sampleClient_def okResponse_def CheckResponse_def decodeBody_def
        listLib_def sampleLib_def withPaging_def newResponse_def populatePageValues_def)
  have r: "NewRequestWithContext listLib (Some (sampleClient okResponse)) ''GET''
             ''api/v3/projects'' None = Returns (Inr projectsRequest)"
    by (simp add: NewRequestWithContext_def newRequestWithContext_def setAuthentication_def
        listLib_def sampleLib_def sampleParse_def sampleClient_def projectsRequest_def
        TrimLeft_def)
  have d: "Do listLib (sampleClient okResponse) projectsRequest
             (Some (SearchResultProject new_SearchResult)) =
     (Some (SearchResultProject ?p),
      Some \<lparr>Response = okResponse, Total = 0, Count = 0, PageSize = 0, Offset = 0\<rparr>, None)"
    by (simp add: Do_def sampleClient_def okResponse_def CheckResponse_def decodeBody_def
        listLib_def sampleLib_def withPaging_def newResponse_def populatePageValues_def)
  have t: "TrimRight ''api/v3/projects'' ''/'' = ''api/v3/projects''"
    by (simp add: TrimRight_def)
  have b: "GetListWithContext listLib (ProjectService (Some (sampleClient okResponse)))
        ''api/v3/projects'' None =
     (Returns (Some (SearchResultProject ?p),
         Some \<lparr>Response = okResponse, Total = 0, Count = 0, PageSize = 0, Offset = 0\<rparr>, None),
      [projectsRequest])"
    by (simp add: GetListWithContext_def t r Client_Do_def d)
  from a b show ?thesis by simp
qed

text \<open>
  C10. For a client with basic authentication: with an empty user name both request
  builders behave exactly as without any authentication (the same result, error or
  request), a request they return has the \<open>Content-Type\<close> header only, and they do return
  a request, with the method, the resolved URL and the body asked for, whenever the end
  point and the resolved URL parse (and, for a body to encode, the encoder succeeds); with
  a non-empty user name the returned request carries the \<open>Authorization\<close> header as well.
\<close>

theorem NewRequestWithContext_basic_username:
  assumes "authType (Authentication c) = authTypeBasic"
  shows "(username (Authentication c) = [] \<longrightarrow>
            NewRequestWithContext L (Some c) method urlStr body =
              NewRequestWithContext L
                (Some (c\<lparr>Authentication := (Authentication c)\<lparr>authType := authTypeUnset\<rparr>\<rparr>))
                method urlStr body
          \<and> NewRawRequestWithContext L (Some c) method urlStr raw =
              NewRawRequestWithContext L
                (Some (c\<lparr>Authentication := (Authentication c)\<lparr>authType := authTypeUnset\<rparr>\<rparr>))
                method urlStr raw
          \<and> (\<forall>req. NewRequestWithContext L (Some c) method urlStr body = Returns (Inr req)
                     \<or> NewRawRequestWithContext L (Some c) method urlStr raw = Returns (Inr req)
                 \<longrightarrow> Header req = [(''Content-Type'', [''application/json''])])
          \<and> (\<forall>rel u.
                url_Parse L urlStr = Inr rel
                \<and> url_Parse L (url_String L (url_ResolveReference L (baseURL c)
                                  (rel\<lparr>Path := TrimLeft (Path rel) ''/''\<rparr>))) = Inr u
                \<longrightarrow> NewRawRequestWithContext L (Some c) method urlStr raw =
                      Returns (Inr \<lparr>Method = method, URL = u,
                                    Header = [(''Content-Type'', [''application/json''])],
                                    Body = raw\<rparr>)
                    \<and> NewRequestWithContext L (Some c) method urlStr None =
                      Returns (Inr \<lparr>Method = method, URL = u,
                                    Header = [(''Content-Type'', [''application/json''])],
                                    Body = None\<rparr>)
                    \<and> (\<forall>b buf. json_Encode L b = Inr buf \<longrightarrow>
                         NewRequestWithContext L (Some c) method urlStr (Some b) =
                           Returns (Inr \<lparr>Method = method, URL = u,
                                         Header = [(''Content-Type'', [''application/json''])],
                                         Body = Some buf\<rparr>))))
       \<and> (username (Authentication c) \<noteq> [] \<longrightarrow>
           (\<forall>req. NewRequestWithContext L (Some c) method urlStr body = Returns (Inr req)
                     \<or> NewRawRequestWithContext L (Some c) method urlStr raw = Returns (Inr req)
                 \<longrightarrow> Header req =
                       [(''Content-Type'', [''application/json'']),
                        (''Authorization'',
                         [''Basic '' @ base64_Encode L (username (Authentication c) @ '':''
                                                        @ password (Authentication c))])])
           \<and> (\<forall>rel u.
                url_Parse L urlStr = Inr rel
                \<and> url_Parse L (url_String L (url_ResolveReference L (baseURL c)
                                  (rel\<lparr>Path := TrimLeft (Path rel) ''/''\<rparr>))) = Inr u
                \<longrightarrow> NewRawRequestWithContext L (Some c) method urlStr raw =
                      Returns (Inr \<lparr>Method = method, URL = u,
                                    Header = [(''Content-Type'', [''application/json'']),
                                       (''Authorization'',
                                        [''Basic '' @ base64_Encode L
                                           (username (Authentication c) @ '':''
                                            @ password (Authentication c))])],
                                    Body = raw\<rparr>)
                    \<and> NewRequestWithContext L (Some c) method urlStr None =
                      Returns (Inr \<lparr>Method = method, URL = u,
                                    Header = [(''Content-Type'', [''application/json'']),
                                       (''Authorization'',
                                        [''Basic '' @ base64_Encode L
                                           (username (Authentication c) @ '':''
                                            @ password (Authentication c))])],
                                    Body = None\<rparr>)
                    \<and> (\<forall>b buf. json_Encode L b = Inr buf \<longrightarrow>
                         NewRequestWithContext L (Some c) method urlStr (Some b) =
                           Returns (Inr \<lparr>Method = method, URL = u,
                                    Header = [(''Content-Type'', [''application/json'']),
                                       (''Authorization'',
                                        [''Basic '' @ base64_Encode L
                                           (username (Authentication c) @ '':''
                                            @ password (Authentication c))])],
                                    Body = Some buf\<rparr>))))"
  using assms
  by (auto simp: NewRequestWithContext_def NewRawRequestWithContext_def
      newRequestWithContext_def setAuthentication_def SetBasicAuth_def Let_def
      split: sum.splits option.splits)

theorem NewRequestWithContext_basic_username_witness:
  "authType (Authentication (sampleClient okResponse)) = authTypeBasic
   \<and> username (Authentication (sampleClient okResponse)) = []
   \<and> NewRequestWithContext sampleLib (Some (sampleClient okResponse)) ''GET''
        ''api/v3/work_packages/1'' None = Returns (Inr getRequest)
   \<and> NewRawRequestWithContext sampleLib (Some (sampleClient okResponse)) ''POST''
        ''/api/v3/attachments'' (Some ''raw bytes'') = Returns (Inr postRequest)
   \<and> NewRequestWithContext sampleLib (Some (sampleClient okResponse)) ''POST''
        ''/api/v3/attachments'' (Some (Attachment [])) =
       Returns (Inr (postRequest\<lparr>http_Request.Body := Some ''{}''\<rparr>))
   \<and> Header getRequest = [(''Content-Type'', [''application/json''])]
   \<and> Header postRequest = [(''Content-Type'', [''application/json''])]
   \<and> authType (Authentication adminClient) = authTypeBasic
   \<and> username (Authentication adminClient) = ''admin''
   \<and> NewRequestWithContext sampleLib (Some adminClient) ''GET''
        ''api/v3/work_packages/1'' None =
       Returns (Inr (getRequest\<lparr>Header := [(''Content-Type'', [''application/json'']),
                                            (''Authorization'', [''Basic admin:secret''])]\<rparr>))
   \<and> NewRawRequestWithContext sampleLib (Some adminClient) ''POST''
        ''/api/v3/attachments'' (Some ''raw bytes'') =
       Returns (Inr (postRequest\<lparr>Header := [(''Content-Type'', [''application/json'']),
                                             (''Authorization'', [''Basic admin:secret''])]\<rparr>))"
proof -
  let ?c = "sampleClient okResponse"
  let ?r1 = "\<lparr>Scheme = [], Host = [], Path = ''api/v3/work_packages/1'', RawQuery = []\<rparr>"
  let ?r2 = "\<lparr>Scheme = [], Host = [], Path = ''/api/v3/attachments'', RawQuery = []\<rparr>"
  have a: "authType (Authentication ?c) = authTypeBasic" and e: "username (Authentication ?c) = []"
    by (simp_all add: sampleClient_def)
  have a': "authType (Authentication adminClient) = authTypeBasic"
    and e': "username (Authentication adminClient) \<noteq> []"
    and n': "username (Authentication adminClient) = ''admin''"
    and w': "password (Authentication adminClient) = ''secret''"
    by (simp_all add: adminClient_def)
  have p1: "url_Parse sampleLib ''api/v3/work_packages/1'' = Inr ?r1"
    and p2: "url_Parse sampleLib ''/api/v3/attachments'' = Inr ?r2"
    by (simp_all add: sampleLib_def sampleParse_def)
  have q1: "url_Parse sampleLib (url_String sampleLib (url_ResolveReference sampleLib (baseURL ?c)
              (?r1\<lparr>Path := TrimLeft (Path ?r1) ''/''\<rparr>))) = Inr (URL getRequest)"
    by (simp add: sampleLib_def sampleParse_def sampleClient_def getRequest_def TrimLeft_def)
  have q2: "url_Parse sampleLib (url_String sampleLib (url_ResolveReference sampleLib (baseURL ?c)
              (?r2\<lparr>Path := TrimLeft (Path ?r2) ''/''\<rparr>))) = Inr (URL postRequest)"
    by (simp add: sampleLib_def sampleParse_def sampleClient_def postRequest_def TrimLeft_def)
  have q1': "url_Parse sampleLib (url_String sampleLib (url_ResolveReference sampleLib
              (baseURL adminClient) (?r1\<lparr>Path := TrimLeft (Path ?r1) ''/''\<rparr>)))
               = Inr (URL getRequest)"
    by (simp add: sampleLib_def sampleParse_def adminClient_def getRequest_def TrimLeft_def)
  have q2': "url_Parse sampleLib (url_String sampleLib (url_ResolveReference sampleLib
              (baseURL adminClient) (?r2\<lparr>Path := TrimLeft (Path ?r2) ''/''\<rparr>)))
               = Inr (URL postRequest)"
    by (simp add: sampleLib_def sampleParse_def adminClient_def postRequest_def TrimLeft_def)
  note r1 = NewRequestWithContext_basic_username [OF a, of sampleLib "''GET''"
      "''api/v3/work_packages/1''" None None, THEN conjunct1, THEN mp, OF e, THEN conjunct2,
      THEN conjunct2, THEN conjunct2, THEN spec, THEN spec, THEN mp, OF conjI, OF p1 q1]
  note r2 = NewRequestWithContext_basic_username [OF a, of sampleLib "''POST''"
      "''/api/v3/attachments''" None "Some ''raw bytes''", THEN conjunct1, THEN mp, OF e,
      THEN conjunct2, THEN conjunct2, THEN conjunct2, THEN spec, THEN spec, THEN mp, OF conjI,
      OF p2 q2]
  note r3 = NewRequestWithContext_basic_username [OF a', of sampleLib "''GET''"
      "''api/v3/work_packages/1''" None None, THEN conjunct2, THEN mp, OF e', THEN conjunct2,
      THEN spec, THEN spec, THEN mp, OF conjI, OF p1 q1']
  note r4 = NewRequestWithContext_basic_username [OF a', of sampleLib "''POST''"
      "''/api/v3/attachments''" None "Some ''raw bytes''", THEN conjunct2, THEN mp, OF e',
      THEN conjunct2, THEN spec, THEN spec, THEN mp, OF conjI, OF p2 q2']
  from r1 have 1: "NewRequestWithContext sampleLib (Some ?c) ''GET'' ''api/v3/work_packages/1'' None
             = Returns (Inr getRequest)"
    by (simp add: getRequest_def)
  from r2 have 2: "NewRawRequestWithContext sampleLib (Some ?c) ''POST'' ''/api/v3/attachments''
             (Some ''raw bytes'') = Returns (Inr postRequest)"
    by (simp add: postRequest_def)
  have je: "json_Encode sampleLib (Attachment []) = Inr ''{}''"
    by (simp add: sampleLib_def)
  from r2 [THEN conjunct2, THEN conjunct2, THEN spec, THEN spec, THEN mp, OF je]
  have 5: "NewRequestWithContext sampleLib (Some ?c) ''POST'' ''/api/v3/attachments''
             (Some (Attachment [])) = Returns (Inr (postRequest\<lparr>http_Request.Body := Some ''{}''\<rparr>))"
    by (simp add: postRequest_def)
  have b: "base64_Encode sampleLib = id"
    by (simp add: sampleLib_def)
  from r3 have 3: "NewRequestWithContext sampleLib (Some adminClient) ''GET''
        ''api/v3/work_packages/1'' None =
       Returns (Inr (getRequest\<lparr>Header := [(''Content-Type'', [''application/json'']),
                                            (''Authorization'', [''Basic admin:secret''])]\<rparr>))"
    by (simp add: getRequest_def n' w' b)
  from r4 have 4: "NewRawRequestWithContext sampleLib (Some adminClient) ''POST''
        ''/api/v3/attachments'' (Some ''raw bytes'') =
       Returns (Inr (postRequest\<lparr>Header := [(''Content-Type'', [''application/json'']),
                                             (''Authorization'', [''Basic admin:secret''])]\<rparr>))"
    by (simp add: postRequest_def n' w' b)
  from a e a' n' 1 2 3 4 5 show ?thesis by (simp add: getRequest_def postRequest_def)
qed

section \<open>Signed-token canonical string\<close>

text \<open>
  \<open>strings.ToUpper\<close> on ASCII text (HTTP methods are ASCII tokens): the letters \<open>a\<close> to
  \<open>z\<close> are mapped to upper case, every other byte is kept.
\<close>

definition upperByte :: "char \<Rightarrow> char" where
  "upperByte c =
     (case map_of (zip ''abcdefghijklmnopqrstuvwxyz'' ''ABCDEFGHIJKLMNOPQRSTUVWXYZ'') c of
        None \<Rightarrow> c
      | Some u \<Rightarrow> u)"

definition ToUpper :: "string \<Rightarrow> string" where
  "ToUpper s = map upperByte s"

text \<open>
  \<open>URL.Query()\<close> parses the raw query and adds each decoded pair, in order, with
  \<open>Values.Add\<close>. The splitting and unescaping of the raw query is not modelled: a query is
  given as the list of its decoded \<open>key=value\<close> pairs.
\<close>

definition URL_Query :: "(string \<times> string) list \<Rightarrow> Values" where
  "URL_Query ps = foldl (\<lambda>m (k, v). Values_Add m k v) [] ps"

text \<open>
  The loop of \<open>canonicalizeRequest\<close> ranges over the map of values. Go visits the entries
  of a map in an unspecified order; the values are passed to the model in the order in which
  the loop visits them.
\<close>

definition canonicalQueryString :: "Values \<Rightarrow> string list" where
  "canonicalQueryString q =
     foldl (\<lambda>canonicalQueryString (k, v).
              if k = ''jwt'' then canonicalQueryString
              else
                (let param = QueryEscape k;
                     val = QueryEscape (Join v [])
                 in canonicalQueryString @ [ReplaceChar (Join [param, val] ''='') (CHR ''+'') ''%20'']))
       [] q"

definition canonicalizeRequest :: "string \<Rightarrow> string \<Rightarrow> Values \<Rightarrow> string" where
  "canonicalizeRequest httpMethod urlPath q =
     (let path = ''/'' @ ReplaceChar (Trim urlPath ''/'') (CHR ''&'') ''%26''
      in ToUpper httpMethod @ ''&'' @ path @ ''&'' @ Join (sort (canonicalQueryString q)) ''&'')"

text \<open>
  The canonical string as the specification words it: the upper-case method, the normalized
  path, and the sorted, URL-escaped \<open>key=value\<close> pairs of the query without the \<open>jwt\<close>
  parameter, joined by \<open>&\<close>.
\<close>

definition specPair :: "string \<times> string \<Rightarrow> string" where
  "specPair p = ReplaceChar (QueryEscape (fst p) @ ''='' @ QueryEscape (snd p)) (CHR ''+'') ''%20''"

definition canonicalSpec :: "string \<Rightarrow> string \<Rightarrow> (string \<times> string) list \<Rightarrow> string" where
  "canonicalSpec httpMethod urlPath ps =
     ToUpper httpMethod @ ''&'' @ (''/'' @ ReplaceChar (Trim urlPath ''/'') (CHR ''&'') ''%26'')
       @ ''&'' @ Join (sort (map specPair (filter (\<lambda>p. fst p \<noteq> ''jwt'') ps))) ''&''"

text \<open>
  The pairs of a query with the values of each key concatenated, in the order of the query,
  into the one value of that key.
\<close>

definition valuesOf :: "(string \<times> string) list \<Rightarrow> string \<Rightarrow> string list" where
  "valuesOf ps k = map snd (filter (\<lambda>p. fst p = k) ps)"

definition joinedPairs :: "(string \<times> string) list \<Rightarrow> (string \<times> string) list" where
  "joinedPairs ps = map (\<lambda>k. (k, concat (valuesOf ps k))) (remdups (map fst ps))"

subsection \<open>Properties of the canonical string\<close>

lemma Join_empty_sep: "Join v [] = concat v"
  by (induction v "[] :: string" rule: Join.induct) simp_all

lemma canonicalQueryString_eq:
  "canonicalQueryString q =
     map (\<lambda>(k, v). ReplaceChar (QueryEscape k @ ''='' @ QueryEscape (concat v)) (CHR ''+'') ''%20'')
       (filter (\<lambda>(k, v). k \<noteq> ''jwt'') q)"
proof -
  have "foldl (\<lambda>canonicalQueryString (k, v).
              if k = ''jwt'' then canonicalQueryString
              else
                (let param = QueryEscape k;
                     val = QueryEscape (Join v [])
                 in canonicalQueryString @ [ReplaceChar (Join [param, val] ''='') (CHR ''+'') ''%20'']))
       acc q = acc @ map (\<lambda>(k, v). ReplaceChar (QueryEscape k @ ''='' @ QueryEscape (concat v)) (CHR ''+'') ''%20'')
       (filter (\<lambda>(k, v). k \<noteq> ''jwt'') q)" for acc
    by (induction q arbitrary: acc) (auto simp: Join_empty_sep)
  from this [of "[]"] show ?thesis by (simp add: canonicalQueryString_def)
qed

lemma Values_Add_fresh:
  "key \<notin> fst ` set m \<Longrightarrow> Values_Add m key val = m @ [(key, [val])]"
  by (induction m key val rule: Values_Add.induct) auto

lemma Query_snoc: "URL_Query (ps @ [(k, v)]) = Values_Add (URL_Query ps) k v"
  by (simp add: URL_Query_def)

lemma Query_distinct:
  "distinct (map fst ps) \<Longrightarrow> URL_Query ps = map (\<lambda>p. (fst p, [snd p])) ps"
proof (induction ps rule: rev_induct)
  case Nil
  then show ?case by (simp add: URL_Query_def)
next
  case (snoc x xs)
  obtain k v where x: "x = (k, v)" by (cases x)
  from snoc.prems x have d: "distinct (map fst xs)" and n: "k \<notin> fst ` set xs" by auto
  have "URL_Query (xs @ [x]) = Values_Add (map (\<lambda>p. (fst p, [snd p])) xs) k v"
    using snoc.IH [OF d] x by (simp add: Query_snoc)
  also have "\<dots> = map (\<lambda>p. (fst p, [snd p])) xs @ [(k, [v])]"
    using n by (intro Values_Add_fresh) (auto simp: image_iff)
  finally show ?case using x by simp
qed

lemma sort_mset_cong: "mset xs = mset ys \<Longrightarrow> sort xs = sort (ys :: string list)"
  by (metis properties_for_sort sorted_sort mset_sort)

lemma canonicalQueryString_mset:
  assumes "mset it = mset q"
  shows "mset (canonicalQueryString it) = mset (canonicalQueryString q)"
  using assms by (simp add: canonicalQueryString_eq)

lemma canonicalizeRequest_order:
  assumes "mset it = mset q"
  shows "canonicalizeRequest m p it = canonicalizeRequest m p q"
  using sort_mset_cong [OF canonicalQueryString_mset [OF assms]]
  by (simp add: canonicalizeRequest_def)

lemma canonicalizeRequest_Query_distinct:
  assumes "distinct (map fst ps)"
  shows "canonicalizeRequest m p (URL_Query ps) = canonicalSpec m p ps"
proof -
  have "canonicalQueryString (URL_Query ps) = map specPair (filter (\<lambda>p. fst p \<noteq> ''jwt'') ps)"
    by (simp add: Query_distinct [OF assms] canonicalQueryString_eq filter_map comp_def
        specPair_def case_prod_beta)
  then show ?thesis
    by (simp add: canonicalizeRequest_def canonicalSpec_def)
qed

lemma canonicalSpec_order:
  assumes "mset ps' = mset ps"
  shows "canonicalSpec m p ps' = canonicalSpec m p ps"
proof -
  have "mset (map specPair (filter (\<lambda>p. fst p \<noteq> ''jwt'') ps'))
      = mset (map specPair (filter (\<lambda>p. fst p \<noteq> ''jwt'') ps))"
    using assms by simp
  from sort_mset_cong [OF this] show ?thesis by (simp add: canonicalSpec_def)
qed

lemma Values_Add_keys: "fst ` set (Values_Add m k v) = insert k (fst ` set m)"
  by (induction m k v rule: Values_Add.induct) auto

lemma Values_Add_distinct:
  "distinct (map fst m) \<Longrightarrow> distinct (map fst (Values_Add m k v))"
  by (induction m k v rule: Values_Add.induct) (auto simp: Values_Add_keys)

lemma Values_Add_map_of:
  "map_of (Values_Add m k v) =
     (map_of m)(k \<mapsto> (case map_of m k of None \<Rightarrow> [v] | Some vs \<Rightarrow> vs @ [v]))"
  by (induction m k v rule: Values_Add.induct) (auto simp: fun_eq_iff)

lemma Query_snoc_pair: "URL_Query (ps @ [x]) = Values_Add (URL_Query ps) (fst x) (snd x)"
  by (simp add: URL_Query_def split_def)

lemma Query_keys: "fst ` set (URL_Query ps) = fst ` set ps"
proof (induction ps rule: rev_induct)
  case Nil
  then show ?case by (simp add: URL_Query_def)
next
  case (snoc x xs)
  then show ?case by (simp add: Query_snoc_pair Values_Add_keys)
qed

lemma Query_distinct_keys: "distinct (map fst (URL_Query ps))"
proof (induction ps rule: rev_induct)
  case Nil
  then show ?case by (simp add: URL_Query_def)
next
  case (snoc x xs)
  then show ?case by (simp add: Query_snoc_pair Values_Add_distinct)
qed

lemma valuesOf_absent: "k \<notin> fst ` set ps \<Longrightarrow> valuesOf ps k = []"
  by (auto simp: valuesOf_def filter_empty_conv)

lemma Query_map_of:
  "map_of (URL_Query ps) k = (if k \<in> fst ` set ps then Some (valuesOf ps k) else None)"
proof (induction ps rule: rev_induct)
  case Nil
  then show ?case by (simp add: URL_Query_def)
next
  case (snoc x xs)
  show ?case
  proof (cases "k = fst x")
    case True
    then show ?thesis
      using snoc.IH valuesOf_absent [of k xs]
      by (simp add: Query_snoc_pair Values_Add_map_of valuesOf_def)
  next
    case False
    then show ?thesis
      using snoc.IH
      by (simp add: Query_snoc_pair Values_Add_map_of valuesOf_def)
  qed
qed

lemma Query_mset:
  "mset (URL_Query ps) = mset (map (\<lambda>k. (k, valuesOf ps k)) (remdups (map fst ps)))"
proof -
  let ?r = "map (\<lambda>k. (k, valuesOf ps k)) (remdups (map fst ps))"
  have d1: "distinct (URL_Query ps)"
    using Query_distinct_keys [of ps] by (simp add: distinct_map)
  have d2: "distinct ?r"
    by (simp add: distinct_map inj_on_def)
  have s: "set (URL_Query ps) = set ?r"
  proof (rule set_eqI)
    fix e :: "string \<times> string list"
    obtain k vs where e: "e = (k, vs)" by (cases e)
    have "e \<in> set (URL_Query ps) \<longleftrightarrow> map_of (URL_Query ps) k = Some vs"
      using map_of_eq_Some_iff [OF Query_distinct_keys, of ps k vs] e by simp
    also have "\<dots> \<longleftrightarrow> e \<in> set ?r"
      using e by (auto simp: Query_map_of)
    finally show "e \<in> set (URL_Query ps) \<longleftrightarrow> e \<in> set ?r" .
  qed
  from set_eq_iff_mset_eq_distinct [OF d1 d2] s show ?thesis
    by blast
qed

lemma canonicalizeRequest_Query:
  "canonicalizeRequest m p (URL_Query ps) = canonicalSpec m p (joinedPairs ps)"
proof -
  let ?r = "map (\<lambda>k. (k, valuesOf ps k)) (remdups (map fst ps))"
  have "canonicalQueryString ?r = map specPair (filter (\<lambda>p. fst p \<noteq> ''jwt'') (joinedPairs ps))"
    by (simp add: canonicalQueryString_eq joinedPairs_def filter_map comp_def specPair_def)
  then have "canonicalizeRequest m p ?r = canonicalSpec m p (joinedPairs ps)"
    by (simp add: canonicalizeRequest_def canonicalSpec_def)
  with canonicalizeRequest_order [OF Query_mset, of m p ps] show ?thesis by simp
qed

lemma valuesOf_filter:
  "k \<noteq> j \<Longrightarrow> valuesOf (filter (\<lambda>p. fst p \<noteq> j) ps) k = valuesOf ps k"
  by (induction ps) (auto simp: valuesOf_def)

lemma joinedPairs_jwt:
  "filter (\<lambda>p. fst p \<noteq> ''jwt'') (joinedPairs (filter (\<lambda>p. fst p \<noteq> ''jwt'') ps))
     = filter (\<lambda>p. fst p \<noteq> ''jwt'') (joinedPairs ps)"
proof -
  let ?ks = "filter (\<lambda>k. k \<noteq> ''jwt'') (remdups (map fst ps))"
  have "map fst (filter (\<lambda>p. fst p \<noteq> ''jwt'') ps) = filter (\<lambda>k. k \<noteq> ''jwt'') (map fst ps)"
    by (induction ps) simp_all
  then have k: "remdups (map fst (filter (\<lambda>p. fst p \<noteq> ''jwt'') ps)) = ?ks"
    by (simp add: remdups_filter)
  have v: "map (\<lambda>k. (k, concat (valuesOf (filter (\<lambda>p. fst p \<noteq> ''jwt'') ps) k))) ?ks
             = map (\<lambda>k. (k, concat (valuesOf ps k))) ?ks"
    by (rule map_cong) (simp_all add: valuesOf_filter)
  have "filter (\<lambda>p. fst p \<noteq> ''jwt'') (joinedPairs (filter (\<lambda>p. fst p \<noteq> ''jwt'') ps))
          = map (\<lambda>k. (k, concat (valuesOf ps k))) ?ks"
    unfolding joinedPairs_def k v by (simp add: filter_map comp_def)
  also have "\<dots> = filter (\<lambda>p. fst p \<noteq> ''jwt'') (joinedPairs ps)"
    by (simp add: joinedPairs_def filter_map comp_def)
  finally show ?thesis .
qed

lemma joinedPairs_distinct: "distinct (map fst ps) \<Longrightarrow> joinedPairs ps = ps"
proof -
  assume d: "distinct (map fst ps)"
  have "p \<in> set ps \<Longrightarrow> valuesOf ps (fst p) = [snd p]" for p
    using d by (induction ps) (auto simp: valuesOf_def filter_empty_conv image_iff)
  then have "map (\<lambda>k. (k, concat (valuesOf ps k))) (map fst ps) = ps"
    by (simp add: map_idI)
  with d show ?thesis by (simp add: joinedPairs_def distinct_remdups_id)
qed

text \<open>
  C2 (as amended). Whatever the order in which the loop visits the map, the canonical string
  is the upper-case method, the normalized path and the sorted escaped \<open>key=value\<close> pairs
  without \<open>jwt\<close>, joined by \<open>&\<close>, where a key that occurs several times in the query
  gives one pair, whose value is the concatenation of the key's values in the order of the
  query; removing the \<open>jwt\<close> parameter from the query beforehand gives the same string.
  For a query in which no key occurs twice the pairs are the query's own, and supplying the
  parameters in another order gives the same string.
\<close>

theorem canonicalizeRequest_distinct_keys:
  assumes i: "mset it = mset (URL_Query ps)"
    and j: "mset itj = mset (URL_Query (filter (\<lambda>p. fst p \<noteq> ''jwt'') ps))"
  shows "canonicalizeRequest httpMethod urlPath it
           = canonicalSpec httpMethod urlPath (joinedPairs ps)
     \<and> canonicalizeRequest httpMethod urlPath itj = canonicalizeRequest httpMethod urlPath it
     \<and> (distinct (map fst ps) \<longrightarrow>
          canonicalizeRequest httpMethod urlPath it = canonicalSpec httpMethod urlPath ps
          \<and> (\<forall>ps' it'. mset ps' = mset ps \<and> mset it' = mset (URL_Query ps') \<longrightarrow>
                canonicalizeRequest httpMethod urlPath it'
                  = canonicalizeRequest httpMethod urlPath it))"
proof -
  have a: "canonicalizeRequest httpMethod urlPath it
             = canonicalSpec httpMethod urlPath (joinedPairs ps)"
    using canonicalizeRequest_order [OF i] canonicalizeRequest_Query by simp
  have "canonicalizeRequest httpMethod urlPath itj
          = canonicalSpec httpMethod urlPath (joinedPairs (filter (\<lambda>p. fst p \<noteq> ''jwt'') ps))"
    using canonicalizeRequest_order [OF j] canonicalizeRequest_Query by simp
  also have "\<dots> = canonicalSpec httpMethod urlPath (joinedPairs ps)"
    by (simp add: canonicalSpec_def joinedPairs_jwt)
  finally have b: "canonicalizeRequest httpMethod urlPath itj
                     = canonicalizeRequest httpMethod urlPath it"
    using a by simp
  have c: "canonicalizeRequest httpMethod urlPath it = canonicalSpec httpMethod urlPath ps"
    if d: "distinct (map fst ps)"
    using a joinedPairs_distinct [OF d] by simp
  have e: "canonicalizeRequest httpMethod urlPath it' = canonicalizeRequest httpMethod urlPath it"
    if d: "distinct (map fst ps)" and p: "mset ps' = mset ps"
      and i': "mset it' = mset (URL_Query ps')" for ps' it'
  proof -
    from p have "mset (map fst ps') = mset (map fst ps)" by simp
    with d have d': "distinct (map fst ps')" by (metis mset_eq_imp_distinct_iff)
    have "canonicalizeRequest httpMethod urlPath it' = canonicalSpec httpMethod urlPath ps'"
      using canonicalizeRequest_order [OF i'] canonicalizeRequest_Query_distinct [OF d'] by simp
    with c [OF d] canonicalSpec_order [OF p] show ?thesis by simp
  qed
  from a b c e show ?thesis by blast
qed

theorem canonicalizeRequest_distinct_keys_witness:
  "distinct (map fst [(''b'', ''x y''), (''a'', ''1''), (''jwt'', ''t'')])
   \<and> mset [(''jwt'', ''t''), (''a'', ''1''), (''b'', ''x y'')]
       = mset [(''b'', ''x y''), (''a'', ''1''), (''jwt'', ''t'')]
   \<and> canonicalizeRequest ''get'' ''/api/v3/a&b/''
         (URL_Query [(''b'', ''x y''), (''a'', ''1''), (''jwt'', ''t'')])
       = ''GET&/api/v3/a%26b&a=1&b=x%20y''
   \<and> canonicalizeRequest ''get'' ''/api/v3/a&b/''
         (URL_Query [(''jwt'', ''t''), (''a'', ''1''), (''b'', ''x y'')])
       = ''GET&/api/v3/a%26b&a=1&b=x%20y''
   \<and> canonicalizeRequest ''get'' ''/api/v3/a&b/'' (URL_Query [(''b'', ''x y''), (''a'', ''1'')])
       = ''GET&/api/v3/a%26b&a=1&b=x%20y''
   \<and> joinedPairs [(''a'', ''1''), (''jwt'', ''t''), (''b'', ''x y''), (''a'', ''2'')]
       = [(''jwt'', ''t''), (''b'', ''x y''), (''a'', ''12'')]
   \<and> canonicalizeRequest ''get'' ''/api/v3/a&b/''
         (URL_Query [(''a'', ''1''), (''jwt'', ''t''), (''b'', ''x y''), (''a'', ''2'')])
       = ''GET&/api/v3/a%26b&a=12&b=x%20y''
   \<and> canonicalizeRequest ''get'' ''/api/v3/a&b/''
         (URL_Query [(''a'', ''1''), (''b'', ''x y''), (''a'', ''2'')])
       = ''GET&/api/v3/a%26b&a=12&b=x%20y''"
proof -
  let ?ps = "[(''b'', ''x y''), (''a'', ''1''), (''jwt'', ''t'')]"
  let ?ps' = "[(''jwt'', ''t''), (''a'', ''1''), (''b'', ''x y'')]"
  let ?qs = "[(''a'', ''1''), (''jwt'', ''t''), (''b'', ''x y''), (''a'', ''2'')]"
  have d: "distinct (map fst ?ps)" by simp
  have p: "mset ?ps' = mset ?ps" by simp
  have f: "filter (\<lambda>p. fst p \<noteq> ''jwt'') ?ps = [(''b'', ''x y''), (''a'', ''1'')]"
    "filter (\<lambda>p. fst p \<noteq> ''jwt'') ?qs = [(''a'', ''1''), (''b'', ''x y''), (''a'', ''2'')]"
    by simp_all
  have g: "joinedPairs ?qs = [(''jwt'', ''t''), (''b'', ''x y''), (''a'', ''12'')]"
    by (simp add: joinedPairs_def valuesOf_def)
  have s: "canonicalSpec ''get'' ''/api/v3/a&b/'' ?ps = ''GET&/api/v3/a%26b&a=1&b=x%20y''"
    by (simp add: canonicalSpec_def specPair_def QueryEscape_def escapeByte_def
        shouldEscape_def isAlnum_def ReplaceChar_def Trim_def TrimLeft_def TrimRight_def
        ToUpper_def upperByte_def upperhex_def)
  have t: "canonicalSpec ''get'' ''/api/v3/a&b/''
             [(''jwt'', ''t''), (''b'', ''x y''), (''a'', ''12'')]
           = ''GET&/api/v3/a%26b&a=12&b=x%20y''"
    by (simp add: canonicalSpec_def specPair_def QueryEscape_def escapeByte_def
        shouldEscape_def isAlnum_def ReplaceChar_def Trim_def TrimLeft_def TrimRight_def
        ToUpper_def upperByte_def upperhex_def)
  note r = canonicalizeRequest_distinct_keys [OF refl refl, of "''get''" "''/api/v3/a&b/''" ?ps,
      unfolded f]
  note q = canonicalizeRequest_distinct_keys [OF refl refl, of "''get''" "''/api/v3/a&b/''" ?qs,
      unfolded f g t]
  from r [THEN conjunct2, THEN conjunct2, THEN mp, OF d, THEN conjunct1] s
  have 1: "canonicalizeRequest ''get'' ''/api/v3/a&b/'' (URL_Query ?ps)
                      = ''GET&/api/v3/a%26b&a=1&b=x%20y''"
    by simp
  from r [THEN conjunct2, THEN conjunct1] 1 have 2: "canonicalizeRequest ''get'' ''/api/v3/a&b/''
                      (URL_Query [(''b'', ''x y''), (''a'', ''1'')])
                      = ''GET&/api/v3/a%26b&a=1&b=x%20y''"
    by simp
  from r d p have 3: "canonicalizeRequest ''get'' ''/api/v3/a&b/'' (URL_Query ?ps')
                      = canonicalizeRequest ''get'' ''/api/v3/a&b/'' (URL_Query ?ps)"
    by blast
  from q have 4: "canonicalizeRequest ''get'' ''/api/v3/a&b/'' (URL_Query ?qs)
                      = ''GET&/api/v3/a%26b&a=12&b=x%20y''"
    and 5: "canonicalizeRequest ''get'' ''/api/v3/a&b/''
              (URL_Query [(''a'', ''1''), (''b'', ''x y''), (''a'', ''2'')])
                      = ''GET&/api/v3/a%26b&a=12&b=x%20y''"
    by simp_all
  from d p 1 2 3 4 5 g show ?thesis by simp
qed

text \<open>
  With a repeated key the values of that key are concatenated, in the order of the query, into
  one pair: the string is not the list of the query's pairs, and it depends on the order of
  the parameters.
\<close>

theorem canonicalizeRequest_repeated_key_counterexample:
  "mset [(''a'', ''1''), (''a'', ''2'')] = mset [(''a'', ''2''), (''a'', ''1'')]
   \<and> canonicalizeRequest ''GET'' ''/'' (URL_Query [(''a'', ''1''), (''a'', ''2'')]) = ''GET&/&a=12''
   \<and> canonicalizeRequest ''GET'' ''/'' (URL_Query [(''a'', ''2''), (''a'', ''1'')]) = ''GET&/&a=21''
   \<and> canonicalSpec ''GET'' ''/'' [(''a'', ''1''), (''a'', ''2'')] = ''GET&/&a=1&a=2''"
  by (simp add: canonicalizeRequest_def canonicalSpec_def canonicalQueryString_def URL_Query_def
      specPair_def QueryEscape_def escapeByte_def shouldEscape_def isAlnum_def ReplaceChar_def
      Trim_def TrimLeft_def TrimRight_def ToUpper_def upperByte_def)

section \<open>Round trippers\<close>

text \<open>
  The round trippers receive a pointer to a request and work on a copy of it. To tell the
  copy from the original, requests, header maps and the backing arrays of the \<open>[]string\<close>
  values of a header live in a store, each under an address; \<open>fresh\<close> is the next address
  that an allocation returns. A header map holds, for each key, the address of the key's
  values.
\<close>

type_synonym addr = nat

record store =
  requests :: "addr \<Rightarrow> addr option http_Request option"
  headers :: "addr \<Rightarrow> (string \<times> addr) list option"
  slices :: "addr \<Rightarrow> string list option"
  fresh :: addr

text \<open>Sequencing of steps that may panic.\<close>

fun and_then :: "'a outcome \<Rightarrow> ('a \<Rightarrow> 'b outcome) \<Rightarrow> 'b outcome" where
  "and_then Panic f = Panic"
| "and_then (Returns x) f = f x"

text \<open>
  \<open>entries\<close> are the entries of a header map that may be nil (ranging over a nil map visits
  nothing), \<open>elems\<close> the elements of a slice, \<open>assign\<close> is \<open>m[key] = a\<close>.
\<close>

definition entries :: "store \<Rightarrow> addr option \<Rightarrow> (string \<times> addr) list" where
  "entries s h =
     (case h of
        None \<Rightarrow> []
      | Some a \<Rightarrow> (case headers s a of None \<Rightarrow> [] | Some m \<Rightarrow> m))"

definition elems :: "store \<Rightarrow> addr \<Rightarrow> string list" where
  "elems s a = (case slices s a of None \<Rightarrow> [] | Some xs \<Rightarrow> xs)"

fun assign :: "(string \<times> addr) list \<Rightarrow> string \<Rightarrow> addr \<Rightarrow> (string \<times> addr) list" where
  "assign [] key a = [(key, a)]"
| "assign ((k, b) # m) key a = (if k = key then (k, a) # m else (k, b) # assign m key a)"

definition new_slice :: "store \<Rightarrow> string list \<Rightarrow> store \<times> addr" where
  "new_slice s xs = (s\<lparr>slices := (slices s)(fresh s \<mapsto> xs), fresh := fresh s + 1\<rparr>, fresh s)"

definition map_assign :: "store \<Rightarrow> addr \<Rightarrow> string \<Rightarrow> addr \<Rightarrow> store" where
  "map_assign s h key a = s\<lparr>headers := (headers s)(h \<mapsto> assign (entries s (Some h)) key a)\<rparr>"

text \<open>
  The loop of \<open>cloneRequest\<close>: for every entry of the original header,
  \<open>append([]string(nil), s...)\<close> allocates a new backing array with the elements of \<open>s\<close>,
  and the copy's map gets it under the same key.
\<close>

fun copyHeader :: "store \<Rightarrow> addr \<Rightarrow> (string \<times> addr) list \<Rightarrow> store" where
  "copyHeader s h2 [] = s"
| "copyHeader s h2 ((k, sl) # rest) =
     (let (s1, a) = new_slice s (elems s sl)
      in copyHeader (map_assign s1 h2 k a) h2 rest)"

text \<open>
  \<open>cloneRequest\<close>: \<open>new(http.Request)\<close> and \<open>*r2 = *r\<close> (a nil \<open>r\<close> panics), then
  \<open>make(http.Header, ...)\<close> for the copy and the loop.
\<close>

definition cloneRequest :: "store \<Rightarrow> addr \<Rightarrow> (store \<times> addr) outcome" where
  "cloneRequest s r =
     (case requests s r of
        None \<Rightarrow> Panic
      | Some R \<Rightarrow>
          (let r2 = fresh s;
               s1 = s\<lparr>requests := (requests s)(r2 \<mapsto> R), fresh := r2 + 1\<rparr>;
               h2 = fresh s1;
               s2 = s1\<lparr>headers := (headers s1)(h2 \<mapsto> []), fresh := h2 + 1\<rparr>;
               s3 = s2\<lparr>requests := (requests s2)(r2 \<mapsto> R\<lparr>Header := Some h2\<rparr>)\<rparr>
           in Returns (copyHeader s3 h2 (entries s3 (Header R)), r2)))"

text \<open>
  \<open>req.Header.Set\<close>, \<open>req.Header.Get\<close>, \<open>req.AddCookie\<close> and \<open>req.SetBasicAuth\<close> on a
  request in the store. \<open>Set\<close> stores a new one-element slice under the key; writing into a
  nil map panics.
\<close>

definition Header_Set_ref :: "store \<Rightarrow> addr \<Rightarrow> string \<Rightarrow> string \<Rightarrow> store outcome" where
  "Header_Set_ref s r key val =
     (case requests s r of
        None \<Rightarrow> Panic
      | Some R \<Rightarrow>
          (case Header R of
             None \<Rightarrow> Panic
           | Some h \<Rightarrow>
               (case headers s h of
                  None \<Rightarrow> Panic
                | Some m \<Rightarrow> (let (s1, a) = new_slice s [val] in Returns (map_assign s1 h key a)))))"

definition Header_Get_ref :: "store \<Rightarrow> addr \<Rightarrow> string \<Rightarrow> string" where
  "Header_Get_ref s r key =
     (case requests s r of
        None \<Rightarrow> []
      | Some R \<Rightarrow>
          (case map_of (entries s (Header R)) key of
             None \<Rightarrow> []
           | Some a \<Rightarrow> (case elems s a of [] \<Rightarrow> [] | v # vs \<Rightarrow> v)))"

definition AddCookie_ref :: "store \<Rightarrow> addr \<Rightarrow> Cookie \<Rightarrow> store outcome" where
  "AddCookie_ref s r c =
     (let str = Cookie_String c; old = Header_Get_ref s r ''Cookie''
      in if old \<noteq> [] then Header_Set_ref s r ''Cookie'' (old @ ''; '' @ str)
         else Header_Set_ref s r ''Cookie'' str)"

definition SetBasicAuth_ref ::
  "(string \<Rightarrow> string) \<Rightarrow> store \<Rightarrow> addr \<Rightarrow> string \<Rightarrow> string \<Rightarrow> store outcome" where
  "SetBasicAuth_ref base64 s r user pass =
     Header_Set_ref s r ''Authorization'' (''Basic '' @ base64 (user @ '':'' @ pass))"

text \<open>The request behind a pointer as a transport reads it: the header with its values.\<close>

definition load :: "store \<Rightarrow> addr \<Rightarrow> Request option" where
  "load s r =
     map_option
       (\<lambda>R. \<lparr>Method = Method R, URL = URL R,
              Header = map (\<lambda>(k, a). (k, elems s a)) (entries s (Header R)),
              Body = http_Request.Body R\<rparr>)
       (requests s r)"

text \<open>The claims of a signed token (\<open>jwt.MapClaims\<close> with the keys \<open>iss\<close>, \<open>iat\<close>, \<open>exp\<close>, \<open>qsh\<close>).\<close>

record claims =
  iss :: string
  iat :: int
  exp :: int
  qsh :: string

text \<open>
  What the round trippers take from outside: the default transport, the HTTP client of the
  login, the JSON encoding of the credentials, the parser of raw queries, SHA-256 in
  hexadecimal, the clock (its successive readings) and the signing of a token. They extend
  the library functions of the client.
\<close>

record world = lib +
  DefaultTransport :: "Request \<Rightarrow> error + http_Response"
  authClient_Do :: "Request \<Rightarrow> error + http_Response"
  json_Credentials :: "string \<Rightarrow> string \<Rightarrow> string"
  url_ParseQuery :: "string \<Rightarrow> (string \<times> string) list"
  sha256_hex :: "string \<Rightarrow> string"
  time_Now :: "nat \<Rightarrow> int"
  SignedString :: "string \<Rightarrow> claims \<Rightarrow> error + string"

text \<open>
  The transports. \<open>CookieAuthTransport\<close> has the fields of \<open>BasicAuthTransport\<close> and two
  more, and is declared as its extension. A nil \<open>Transport\<close> stands for
  \<open>http.DefaultTransport\<close>.
\<close>

record BasicAuthTransport =
  Username :: string
  Password :: string
  Transport :: "(Request \<Rightarrow> error + http_Response) option"

record CookieAuthTransport = BasicAuthTransport +
  AuthURL :: string
  SessionObject :: "Cookie list option"

record JWTAuthTransport =
  Secret :: string
  Issuer :: string
  Transport :: "(Request \<Rightarrow> error + http_Response) option"

text \<open>
  \<open>t.transport().RoundTrip(req2)\<close>: the underlying transport answers the outgoing request.
  Each round tripper returns, next to that answer, the store as it leaves it and the address
  of the outgoing request.
\<close>

definition send ::
  "(Request \<Rightarrow> error + http_Response) \<Rightarrow> store \<Rightarrow> addr \<Rightarrow> (error + http_Response) outcome" where
  "send rt s r = (case load s r of None \<Rightarrow> Panic | Some req \<Rightarrow> Returns (rt req))"

definition transport ::
  "world \<Rightarrow> (Request \<Rightarrow> error + http_Response) option \<Rightarrow> Request \<Rightarrow> error + http_Response" where
  "transport W t = (case t of Some rt \<Rightarrow> rt | None \<Rightarrow> DefaultTransport W)"

definition BasicAuthTransport_RoundTrip ::
  "world \<Rightarrow> BasicAuthTransport \<Rightarrow> store \<Rightarrow> addr
     \<Rightarrow> (store \<times> addr \<times> (error + http_Response)) outcome" where
  "BasicAuthTransport_RoundTrip W t s req =
     and_then (cloneRequest s req) (\<lambda>(s1, req2).
       and_then (SetBasicAuth_ref (base64_Encode W) s1 req2 (Username t) (Password t)) (\<lambda>s2.
         and_then (send (transport W (BasicAuthTransport.Transport t)) s2 req2) (\<lambda>res.
           Returns (s2, req2, res))))"

text \<open>
  The login of the cookie transport. \<open>setSessionObject\<close> returns its error, the transport
  as it leaves it and the login requests it has sent. It does not look at the status of the
  login response.
\<close>

definition buildAuthRequest :: "world \<Rightarrow> CookieAuthTransport \<Rightarrow> error + Request" where
  "buildAuthRequest W t =
     (let b = json_Credentials W (Username t) (Password t)
      in case newRequestWithContext W ''POST'' (AuthURL t) (Some b) of
           Inl err \<Rightarrow> Inl err
         | Inr req \<Rightarrow>
             Inr (req\<lparr>Header := Header_Set (Header req) ''Content-Type'' ''application/json''\<rparr>))"

definition setSessionObject ::
  "world \<Rightarrow> CookieAuthTransport \<Rightarrow> error option \<times> CookieAuthTransport \<times> Request list" where
  "setSessionObject W t =
     (case buildAuthRequest W t of
        Inl err \<Rightarrow> (Some err, t, [])
      | Inr req \<Rightarrow>
          (case authClient_Do W req of
             Inl err \<Rightarrow> (Some err, t, [req])
           | Inr resp \<Rightarrow> (None, t\<lparr>SessionObject := Some (SetCookies resp)\<rparr>, [req])))"

fun addCookies :: "store \<Rightarrow> addr \<Rightarrow> Cookie list \<Rightarrow> store outcome" where
  "addCookies s req2 [] = Returns s"
| "addCookies s req2 (cookie # rest) =
     (if Cookie.Value cookie \<noteq> [] then
        and_then (AddCookie_ref s req2 cookie) (\<lambda>s1. addCookies s1 req2 rest)
      else addCookies s req2 rest)"

definition CookieAuthTransport_RoundTrip ::
  "world \<Rightarrow> CookieAuthTransport \<Rightarrow> store \<Rightarrow> addr
     \<Rightarrow> (CookieAuthTransport \<times> Request list \<times> store \<times> addr option \<times> (error + http_Response)) outcome" where
  "CookieAuthTransport_RoundTrip W t s req =
     (let (err, t1, logins) =
            (if SessionObject t = None then setSessionObject W t else (None, t, []))
      in case err of
           Some e \<Rightarrow>
             Returns (t1, logins, s, None,
                      Inl (ErrWrap e ''cookieauth: no session object has been set''))
         | None \<Rightarrow>
             and_then (cloneRequest s req) (\<lambda>(s1, req2).
               and_then (addCookies s1 req2
                           (case SessionObject t1 of None \<Rightarrow> [] | Some cs \<Rightarrow> cs)) (\<lambda>s2.
                 and_then (send (transport W (BasicAuthTransport.Transport t1)) s2 req2) (\<lambda>res.
                   Returns (t1, logins, s2, Some req2, res)))))"

text \<open>
  The signed-token transport. The canonical string does not depend on the order in which the
  map of query values is visited (\<open>canonicalizeRequest_order\<close>).
\<close>

definition createQueryStringHash :: "world \<Rightarrow> string \<Rightarrow> URL \<Rightarrow> string" where
  "createQueryStringHash W httpMethod openprojURL =
     (let canonicalRequest =
            canonicalizeRequest httpMethod (Path openprojURL)
              (URL_Query (url_ParseQuery W (RawQuery openprojURL)))
      in sha256_hex W canonicalRequest)"

definition JWTAuthTransport_RoundTrip ::
  "world \<Rightarrow> JWTAuthTransport \<Rightarrow> store \<Rightarrow> addr
     \<Rightarrow> (store \<times> addr \<times> (error + http_Response)) outcome" where
  "JWTAuthTransport_RoundTrip W t s req =
     and_then (cloneRequest s req) (\<lambda>(s1, req2).
       case (requests s1 req, requests s1 req2) of
         (Some R, Some R2) \<Rightarrow>
           (let qsh = createQueryStringHash W (Method R) (URL R2);
                token = \<lparr>iss = Issuer t, iat = time_Now W 0, exp = time_Now W 1 + 59, qsh = qsh\<rparr>
            in case SignedString W (Secret t) token of
                 Inl err \<Rightarrow> Returns (s1, req2, Inl (ErrWrap err ''jwtAuth: error signing JWT''))
               | Inr jwtStr \<Rightarrow>
                   and_then (Header_Set_ref s1 req2 ''Authorization'' (''JWT '' @ jwtStr)) (\<lambda>s2.
                     and_then (send (transport W (Transport t)) s2 req2) (\<lambda>res.
                       Returns (s2, req2, res))))
       | _ \<Rightarrow> Panic)"

subsection \<open>What attaching credentials leaves intact\<close>

text \<open>
  \<open>wellformed\<close>: the request behind the pointer and its header lie below \<open>fresh\<close>, and the
  header map has one entry per key. \<open>unchanged\<close>: everything below \<open>fresh\<close> of the first
  store is the same in the second. \<open>fresh_copy\<close>: the second request is a new struct with the
  same method, URL and body, its header is a new map, and every slice of that map is new.
  \<open>same_values\<close>: outside the keys \<open>K\<close> both headers hold the same values.
\<close>

definition values_ref :: "store \<Rightarrow> addr \<Rightarrow> string \<Rightarrow> string list option" where
  "values_ref s r key =
     (case requests s r of
        None \<Rightarrow> None
      | Some R \<Rightarrow> map_option (elems s) (map_of (entries s (Header R)) key))"

definition wellformed :: "store \<Rightarrow> addr \<Rightarrow> bool" where
  "wellformed s r =
     (case requests s r of
        None \<Rightarrow> False
      | Some R \<Rightarrow>
          r < fresh s \<and>
          (case Header R of
             None \<Rightarrow> True
           | Some h \<Rightarrow>
               h < fresh s \<and> headers s h \<noteq> None \<and> distinct (map fst (entries s (Some h)))
               \<and> (\<forall>p\<in>set (entries s (Some h)). snd p < fresh s)))"

definition unchanged :: "store \<Rightarrow> store \<Rightarrow> bool" where
  "unchanged s s' =
     (fresh s \<le> fresh s' \<and>
      (\<forall>a<fresh s. requests s' a = requests s a \<and> headers s' a = headers s a
                    \<and> slices s' a = slices s a))"

definition fresh_copy :: "store \<Rightarrow> addr \<Rightarrow> store \<Rightarrow> addr \<Rightarrow> bool" where
  "fresh_copy s r s' r2 =
     (case (requests s r, requests s' r2) of
        (Some R, Some R2) \<Rightarrow>
          fresh s \<le> r2 \<and> r2 < fresh s' \<and> Method R2 = Method R \<and> URL R2 = URL R
          \<and> http_Request.Body R2 = http_Request.Body R
          \<and> (case Header R2 of
               None \<Rightarrow> False
             | Some h2 \<Rightarrow>
                 fresh s \<le> h2 \<and> h2 < fresh s' \<and> headers s' h2 \<noteq> None
                 \<and> (\<forall>p\<in>set (entries s' (Some h2)). fresh s \<le> snd p \<and> snd p < fresh s'))
      | _ \<Rightarrow> False)"

definition same_values :: "string set \<Rightarrow> store \<Rightarrow> addr \<Rightarrow> store \<Rightarrow> addr \<Rightarrow> bool" where
  "same_values K s r s' r2 = (\<forall>key. key \<notin> K \<longrightarrow> values_ref s' r2 key = values_ref s r key)"

definition attached :: "string set \<Rightarrow> store \<Rightarrow> addr \<Rightarrow> store \<Rightarrow> addr \<Rightarrow> bool" where
  "attached K s r s' r2 = (unchanged s s' \<and> fresh_copy s r s' r2 \<and> same_values K s r s' r2)"

definition addCookieString :: "string \<Rightarrow> Cookie \<Rightarrow> string" where
  "addCookieString old c = (if old \<noteq> [] then old @ ''; '' @ Cookie_String c else Cookie_String c)"

definition cookieHeader :: "string \<Rightarrow> Cookie list \<Rightarrow> string" where
  "cookieHeader old cs =
     Join ((if old = [] then [] else [old])
           @ map Cookie_String (filter (\<lambda>c. Cookie.Value c \<noteq> []) cs)) ''; ''"

subsection \<open>A sample store and world\<close>

definition sampleStore :: store where
  "sampleStore =
     \<lparr>requests = Map.empty(0 \<mapsto> \<lparr>Method = ''GET'',
          URL = \<lparr>Scheme = ''http'', Host = ''localhost'', Path = ''/api/v3/work_packages/1'',
                 RawQuery = []\<rparr>,
          Header = Some 1, Body = None\<rparr>),
      headers = Map.empty(1 \<mapsto> [(''Accept'', 2)]),
      slices = Map.empty(2 \<mapsto> [''application/json'']),
      fresh = 3\<rparr>"

definition unauthorized :: http_Response where
  "unauthorized = \<lparr>StatusCode = 401, Body = Some ''unauthorized'', SetCookies = []\<rparr>"

definition sampleWorld :: world where
  "sampleWorld =
     \<lparr>url_Parse = sampleParse,
      url_ResolveReference = url_ResolveReference sampleLib,
      url_String = url_String sampleLib,
      json_Encode = json_Encode sampleLib,
      json_Decode = json_Decode sampleLib,
      json_Unmarshal = json_Unmarshal sampleLib,
      base64_Encode = id,
      DefaultTransport = (\<lambda>r. Inr okResponse),
      authClient_Do = (\<lambda>r. Inr unauthorized),
      json_Credentials = (\<lambda>u p. ''{}''),
      url_ParseQuery = (\<lambda>q. []),
      sha256_hex = id,
      time_Now = (\<lambda>n. 0),
      SignedString = (\<lambda>k c. Inr (qsh c))\<rparr>"



definition clonedStore :: store where
  "clonedStore =
     \<lparr>requests = Map.empty(0 \<mapsto> \<lparr>Method = ''GET'',
          URL = \<lparr>Scheme = ''http'', Host = ''localhost'', Path = ''/api/v3/work_packages/1'',
                 RawQuery = []\<rparr>,
          Header = Some 1, Body = None\<rparr>,
        3 \<mapsto> \<lparr>Method = ''GET'',
          URL = \<lparr>Scheme = ''http'', Host = ''localhost'', Path = ''/api/v3/work_packages/1'',
                 RawQuery = []\<rparr>,
          Header = Some 4, Body = None\<rparr>),
      headers = Map.empty(1 \<mapsto> [(''Accept'', 2)], 4 \<mapsto> [(''Accept'', 5)]),
      slices = Map.empty(2 \<mapsto> [''application/json''], 5 \<mapsto> [''application/json'']),
      fresh = 6\<rparr>"




definition basicTransport :: BasicAuthTransport where
  "basicTransport = \<lparr>Username = ''admin'', Password = ''secret'', Transport = None\<rparr>"

definition basicStore :: store where
  "basicStore =
     clonedStore\<lparr>slices := (slices clonedStore)(6 \<mapsto> [''Basic admin:secret'']), fresh := 7,
                  headers := (headers clonedStore)(4 \<mapsto> [(''Accept'', 5), (''Authorization'', 6)])\<rparr>"

subsection \<open>Properties of the round trippers\<close>

lemma map_of_assign: "map_of (assign m key a) k = (if k = key then Some a else map_of m k)"
  by (induction m key a rule: assign.induct) auto

lemma set_assign: "set (assign m key a) \<subseteq> insert (key, a) (set m)"
  by (induction m key a rule: assign.induct) auto

lemma entries_map_assign:
  "entries (map_assign s h key a) (Some h) = assign (entries s (Some h)) key a"
  by (simp add: map_assign_def entries_def)

lemma copyHeader_frame:
  "requests (copyHeader s h2 es) = requests s
   \<and> fresh s \<le> fresh (copyHeader s h2 es)
   \<and> (\<forall>a. a \<noteq> h2 \<longrightarrow> headers (copyHeader s h2 es) a = headers s a)
   \<and> (\<forall>a<fresh s. slices (copyHeader s h2 es) a = slices s a)
   \<and> (headers s h2 \<noteq> None \<longrightarrow> headers (copyHeader s h2 es) h2 \<noteq> None)"
proof (induction es arbitrary: s)
  case Nil
  show ?case by simp
next
  case (Cons e es)
  obtain k sl where e: "e = (k, sl)" by (cases e)
  let ?s1 = "map_assign (fst (new_slice s (elems s sl))) h2 k (fresh s)"
  have step: "copyHeader s h2 (e # es) = copyHeader ?s1 h2 es"
    by (simp add: e new_slice_def)
  have s1: "requests ?s1 = requests s" "fresh ?s1 = fresh s + 1"
    "\<And>a. a \<noteq> h2 \<Longrightarrow> headers ?s1 a = headers s a"
    "\<And>a. a < fresh s \<Longrightarrow> slices ?s1 a = slices s a"
    "headers ?s1 h2 \<noteq> None"
    by (simp_all add: new_slice_def map_assign_def)
  from Cons.IH [of ?s1] show ?case
    unfolding step using s1 by auto
qed

lemma copyHeader_addresses:
  assumes "\<forall>p\<in>set (entries s (Some h2)). f0 \<le> snd p \<and> snd p < fresh s" "f0 \<le> fresh s"
  shows "\<forall>p\<in>set (entries (copyHeader s h2 es) (Some h2)).
           f0 \<le> snd p \<and> snd p < fresh (copyHeader s h2 es)"
  using assms
proof (induction es arbitrary: s)
  case Nil
  then show ?case by simp
next
  case (Cons e es)
  obtain k sl where e: "e = (k, sl)" by (cases e)
  let ?s0 = "fst (new_slice s (elems s sl))"
  let ?s1 = "map_assign ?s0 h2 k (fresh s)"
  have step: "copyHeader s h2 (e # es) = copyHeader ?s1 h2 es"
    by (simp add: e new_slice_def)
  have f: "fresh ?s1 = fresh s + 1"
    by (simp add: new_slice_def map_assign_def)
  have "entries ?s0 (Some h2) = entries s (Some h2)"
    by (simp add: new_slice_def entries_def)
  then have "set (entries ?s1 (Some h2)) \<subseteq> insert (k, fresh s) (set (entries s (Some h2)))"
    using set_assign [of "entries s (Some h2)" k "fresh s"] by (simp add: entries_map_assign)
  with Cons.prems have a: "\<forall>p\<in>set (entries ?s1 (Some h2)). f0 \<le> snd p \<and> snd p < fresh ?s1"
    unfolding f by fastforce
  from Cons.prems have b: "f0 \<le> fresh ?s1" unfolding f by simp
  from Cons.IH [OF a b] show ?case unfolding step .
qed

lemma copyHeader_values:
  assumes "distinct (map fst es)"
    and "\<forall>p\<in>set es. snd p < fresh s"
    and "\<forall>p\<in>set (entries s (Some h2)). snd p < fresh s"
  shows "map_option (elems (copyHeader s h2 es)) (map_of (entries (copyHeader s h2 es) (Some h2)) key)
         = (case map_of es key of
              Some a \<Rightarrow> Some (elems s a)
            | None \<Rightarrow> map_option (elems s) (map_of (entries s (Some h2)) key))"
  using assms
proof (induction es arbitrary: s)
  case Nil
  then show ?case by simp
next
  case (Cons e es)
  obtain k sl where e: "e = (k, sl)" by (cases e)
  let ?s0 = "fst (new_slice s (elems s sl))"
  let ?s1 = "map_assign ?s0 h2 k (fresh s)"
  have step: "copyHeader s h2 (e # es) = copyHeader ?s1 h2 es"
    by (simp add: e new_slice_def)
  have f: "fresh ?s1 = fresh s + 1"
    by (simp add: new_slice_def map_assign_def)
  have ent0: "entries ?s0 (Some h2) = entries s (Some h2)"
    by (simp add: new_slice_def entries_def)
  have ent: "entries ?s1 (Some h2) = assign (entries s (Some h2)) k (fresh s)"
    by (simp add: entries_map_assign ent0)
  have el: "\<And>a. a < fresh s \<Longrightarrow> elems ?s1 a = elems s a"
    by (simp add: new_slice_def map_assign_def elems_def)
  have el_new: "elems ?s1 (fresh s) = elems s sl"
    by (simp add: new_slice_def map_assign_def elems_def)
  from Cons.prems e have d: "distinct (map fst es)" and k: "k \<notin> fst ` set es" by auto
  from Cons.prems have p1: "\<forall>p\<in>set es. snd p < fresh ?s1" unfolding f by auto
  have "set (entries ?s1 (Some h2)) \<subseteq> insert (k, fresh s) (set (entries s (Some h2)))"
    unfolding ent by (rule set_assign)
  with Cons.prems have p2: "\<forall>p\<in>set (entries ?s1 (Some h2)). snd p < fresh ?s1"
    unfolding f by fastforce
  note ih = Cons.IH [OF d p1 p2]
  show ?case
  proof (cases "map_of es key")
    case (Some a)
    then have "(key, a) \<in> set es" by (rule map_of_SomeD)
    with k Cons.prems have "key \<noteq> k" and "a < fresh s" by force+
    with Some ih show ?thesis unfolding step by (simp add: e el)
  next
    case None
    show ?thesis
    proof (cases "key = k")
      case True
      with None ih show ?thesis
        unfolding step by (simp add: e ent map_of_assign el_new)
    next
      case False
      have "map_option (elems ?s1) (map_of (entries s (Some h2)) key)
          = map_option (elems s) (map_of (entries s (Some h2)) key)"
      proof (cases "map_of (entries s (Some h2)) key")
        case None
        then show ?thesis by simp
      next
        case (Some c)
        then have "(key, c) \<in> set (entries s (Some h2))" by (rule map_of_SomeD)
        with Cons.prems have "c < fresh s" by force
        with Some show ?thesis by (simp add: el)
      qed
      with None False ih show ?thesis
        unfolding step by (simp add: e ent map_of_assign)
    qed
  qed
qed

lemma attached_mono:
  assumes "attached K s r s' r2" "K \<subseteq> K'"
  shows "attached K' s r s' r2"
  using assms by (auto simp: attached_def same_values_def)

lemma clone_core:
  assumes wf: "wellformed s r"
    and R: "requests s r = Some R"
    and X: "requests X = (requests s)(fresh s \<mapsto> R\<lparr>Header := Some (Suc (fresh s))\<rparr>)"
      "headers X = (headers s)(Suc (fresh s) \<mapsto> [])" "slices X = slices s"
      "fresh X = Suc (Suc (fresh s))"
  shows "attached {} s r (copyHeader X (Suc (fresh s)) (entries X (Header R))) (fresh s)"
proof -
  let ?r2 = "fresh s"
  let ?h2 = "Suc (fresh s)"
  let ?es = "entries s (Header R)"
  let ?s' = "copyHeader X ?h2 ?es"
  have es3: "entries X (Header R) = ?es"
    using wf R X by (auto simp: wellformed_def entries_def split: option.splits)
  have d: "distinct (map fst ?es)" and lt: "\<forall>p\<in>set ?es. snd p < fresh s"
    using wf R by (auto simp: wellformed_def entries_def split: option.splits)
  note fr = copyHeader_frame [of X ?h2 ?es]
  have e3: "entries X (Some ?h2) = []" using X by (simp add: entries_def)
  have u: "unchanged s ?s'"
    using fr X by (auto simp: unchanged_def)
  have ad: "\<forall>p\<in>set (entries ?s' (Some ?h2)). fresh s \<le> snd p \<and> snd p < fresh ?s'"
    by (rule copyHeader_addresses) (simp_all add: e3 X)
  have c: "fresh_copy s r ?s' ?r2"
    using R fr ad X by (auto simp: fresh_copy_def)
  have v: "same_values {} s r ?s' ?r2"
  proof -
    have el: "\<And>a. elems X a = elems s a" using X by (simp add: elems_def)
    have "values_ref ?s' ?r2 key = values_ref s r key" for key
    proof -
      have "values_ref ?s' ?r2 key
            = map_option (elems ?s') (map_of (entries ?s' (Some ?h2)) key)"
        using fr X by (simp add: values_ref_def)
      also have "\<dots> = (case map_of ?es key of
                          Some a \<Rightarrow> Some (elems X a)
                        | None \<Rightarrow> map_option (elems X) (map_of (entries X (Some ?h2)) key))"
        using d lt X by (intro copyHeader_values) (auto simp: e3)
      also have "\<dots> = map_option (elems s) (map_of ?es key)"
        by (simp add: e3 el split: option.splits)
      also have "\<dots> = values_ref s r key"
        using R by (simp add: values_ref_def)
      finally show ?thesis .
    qed
    then show ?thesis by (simp add: same_values_def)
  qed
  from u c v show ?thesis by (simp add: attached_def es3)
qed

lemma cloneRequest_attached:
  assumes wf: "wellformed s r"
  shows "\<exists>s' r2. cloneRequest s r = Returns (s', r2) \<and> attached {} s r s' r2"
proof -
  from wf obtain R where R: "requests s r = Some R"
    by (auto simp: wellformed_def split: option.splits)
  show ?thesis
    using R by (simp add: cloneRequest_def Let_def) (rule clone_core [OF wf R], simp_all)
qed

lemma Header_Set_ref_attached:
  assumes a: "attached K s0 r s r2"
  shows "\<exists>s'. Header_Set_ref s r2 key val = Returns s'
              \<and> attached (insert key K) s0 r s' r2
              \<and> values_ref s' r2 key = Some [val]"
proof -
  from a have u: "unchanged s0 s" and c: "fresh_copy s0 r s r2" and v: "same_values K s0 r s r2"
    by (simp_all add: attached_def)
  from c obtain R R2 where R: "requests s0 r = Some R" and R2: "requests s r2 = Some R2"
    by (auto simp: fresh_copy_def split: option.splits)
  from c R R2 obtain h2 where h2: "Header R2 = Some h2"
    by (auto simp: fresh_copy_def split: option.splits)
  from c R R2 h2 obtain m where m: "headers s h2 = Some m"
    by (auto simp: fresh_copy_def split: option.splits)
  from c R R2 h2 m have
    f: "fresh s0 \<le> r2" "r2 < fresh s" "fresh s0 \<le> h2" "h2 < fresh s"
       "Method R2 = Method R" "URL R2 = URL R" "http_Request.Body R2 = http_Request.Body R" and
    ad: "\<forall>p\<in>set m. fresh s0 \<le> snd p \<and> snd p < fresh s"
    by (simp_all add: fresh_copy_def entries_def)
  let ?a = "fresh s"
  let ?s' = "s\<lparr>slices := (slices s)(?a \<mapsto> [val]), fresh := fresh s + 1,
               headers := (headers s)(h2 \<mapsto> assign m key ?a)\<rparr>"
  have r: "Header_Set_ref s r2 key val = Returns ?s'"
    using R2 h2 m by (simp add: Header_Set_ref_def new_slice_def map_assign_def entries_def)
  have u': "unchanged s0 ?s'"
    using u f by (auto simp: unchanged_def)
  have ent: "entries ?s' (Some h2) = assign m key ?a" by (simp add: entries_def)
  have sub: "set (assign m key ?a) \<subseteq> insert (key, ?a) (set m)" by (rule set_assign)
  have ad': "\<forall>p\<in>set (assign m key ?a). fresh s0 \<le> snd p \<and> snd p < fresh s + 1"
  proof
    fix p assume "p \<in> set (assign m key ?a)"
    with sub have "p = (key, ?a) \<or> p \<in> set m" by auto
    with ad u show "fresh s0 \<le> snd p \<and> snd p < fresh s + 1"
      by (auto simp: unchanged_def)
  qed
  have c': "fresh_copy s0 r ?s' r2"
    using R R2 h2 f ad' by (simp add: fresh_copy_def entries_def)
  have vk: "values_ref ?s' r2 k = values_ref s r2 k" if "k \<noteq> key" for k
  proof (cases "map_of m k")
    case None
    with that R2 h2 m show ?thesis
      by (simp add: values_ref_def entries_def map_of_assign)
  next
    case (Some b)
    then have "(k, b) \<in> set m" by (rule map_of_SomeD)
    with ad have "b < fresh s" by force
    then have "elems ?s' b = elems s b" by (simp add: elems_def)
    with that R2 h2 m Some show ?thesis
      by (simp add: values_ref_def entries_def map_of_assign)
  qed
  have v': "same_values (insert key K) s0 r ?s' r2"
    using v vk by (simp add: same_values_def)
  have g: "values_ref ?s' r2 key = Some [val]"
    using R2 h2 by (simp add: values_ref_def entries_def map_of_assign elems_def)
  from r u' c' v' g show ?thesis by (simp add: attached_def)
qed

lemma Header_Get_ref_values:
  "Header_Get_ref s r key = (case values_ref s r key of Some (v # vs) \<Rightarrow> v | _ \<Rightarrow> [])"
  by (simp add: Header_Get_ref_def values_ref_def split: option.splits list.splits)

lemma AddCookie_ref_attached:
  assumes a: "attached K s0 r s r2"
  shows "\<exists>s'. AddCookie_ref s r2 c = Returns s'
              \<and> attached (insert ''Cookie'' K) s0 r s' r2
              \<and> Header_Get_ref s' r2 ''Cookie''
                  = addCookieString (Header_Get_ref s r2 ''Cookie'') c"
proof -
  let ?v = "addCookieString (Header_Get_ref s r2 ''Cookie'') c"
  from Header_Set_ref_attached [OF a, of "''Cookie''" ?v]
  obtain s' where s': "Header_Set_ref s r2 ''Cookie'' ?v = Returns s'"
    "attached (insert ''Cookie'' K) s0 r s' r2" "values_ref s' r2 ''Cookie'' = Some [?v]"
    by blast
  have "AddCookie_ref s r2 c = Header_Set_ref s r2 ''Cookie'' ?v"
    by (simp add: AddCookie_ref_def addCookieString_def Let_def)
  with s' show ?thesis by (simp add: Header_Get_ref_values)
qed

lemma addCookies_attached:
  assumes "attached K s0 r s r2" "''Cookie'' \<in> K"
  shows "\<exists>s'. addCookies s r2 cs = Returns s'
              \<and> attached K s0 r s' r2
              \<and> Header_Get_ref s' r2 ''Cookie''
                  = foldl addCookieString (Header_Get_ref s r2 ''Cookie'')
                      (filter (\<lambda>c. Cookie.Value c \<noteq> []) cs)"
  using assms
proof (induction cs arbitrary: s)
  case Nil
  then show ?case by simp
next
  case (Cons c cs)
  show ?case
  proof (cases "Cookie.Value c \<noteq> []")
    case True
    from AddCookie_ref_attached [OF Cons.prems(1), of c] Cons.prems(2)
    obtain s1 where s1: "AddCookie_ref s r2 c = Returns s1" "attached K s0 r s1 r2"
      "Header_Get_ref s1 r2 ''Cookie'' = addCookieString (Header_Get_ref s r2 ''Cookie'') c"
      by (auto simp: insert_absorb)
    from Cons.IH [OF s1(2) Cons.prems(2)] s1 True show ?thesis by simp
  next
    case False
    with Cons.IH [OF Cons.prems] show ?thesis by simp
  qed
qed

lemma send_Returns:
  assumes "attached K s0 r s r2"
  shows "send rt s r2 = Returns (rt (the (load s r2))) \<and> load s r2 \<noteq> None"
  using assms
  by (auto simp: attached_def fresh_copy_def send_def load_def split: option.splits)

lemma Join_cons_append: "Join ((a @ sep @ b) # xs) sep = a @ sep @ Join (b # xs) sep"
  by (cases xs) simp_all

lemma foldl_addCookieString:
  "old \<noteq> [] \<Longrightarrow> foldl addCookieString old cs = Join (old # map Cookie_String cs) ''; ''"
proof (induction cs arbitrary: old)
  case Nil
  then show ?case by simp
next
  case (Cons c cs)
  have "foldl addCookieString old (c # cs) = foldl addCookieString (old @ ''; '' @ Cookie_String c) cs"
    using Cons.prems by (simp add: addCookieString_def)
  also have "\<dots> = Join ((old @ ''; '' @ Cookie_String c) # map Cookie_String cs) ''; ''"
    by (rule Cons.IH) simp
  also have "\<dots> = Join (old # map Cookie_String (c # cs)) ''; ''"
    using Join_cons_append [of old "''; ''" "Cookie_String c" "map Cookie_String cs"] by simp
  finally show ?case .
qed

lemma foldl_addCookieString_Join:
  "foldl addCookieString old cs
     = Join ((if old = [] then [] else [old]) @ map Cookie_String cs) ''; ''"
proof (cases "old = []")
  case False
  then show ?thesis by (simp add: foldl_addCookieString)
next
  case True
  show ?thesis
  proof (cases cs)
    case Nil
    with True show ?thesis by simp
  next
    case (Cons c cs')
    have "Cookie_String c \<noteq> []" by (simp add: Cookie_String_def)
    from foldl_addCookieString [OF this, of cs'] True Cons show ?thesis
      by (simp add: addCookieString_def)
  qed
qed

lemma unchanged_original:
  assumes wf: "wellformed s r" and u: "unchanged s s'"
  shows "requests s' r = requests s r \<and> load s' r = load s r"
proof -
  from wf obtain R where R: "requests s r = Some R" and r: "r < fresh s"
    by (auto simp: wellformed_def split: option.splits)
  from u r have rq: "requests s' r = requests s r" by (simp add: unchanged_def)
  have en: "entries s' (Header R) = entries s (Header R)"
    using wf R u by (auto simp: wellformed_def unchanged_def entries_def split: option.splits)
  have "elems s' (snd p) = elems s (snd p)" if "p \<in> set (entries s (Header R))" for p
  proof -
    from wf R have "\<forall>p\<in>set (entries s (Header R)). snd p < fresh s"
      by (cases "Header R") (simp_all add: wellformed_def entries_def)
    with that have "snd p < fresh s" by blast
    with u show ?thesis by (simp add: unchanged_def elems_def)
  qed
  then have "map (\<lambda>(k, a). (k, elems s' a)) (entries s (Header R))
           = map (\<lambda>(k, a). (k, elems s a)) (entries s (Header R))"
    by (auto simp: case_prod_beta)
  with rq R en show ?thesis by (simp add: load_def)
qed

lemma attached_Header_Get:
  assumes "attached K s r s' r2" "key \<notin> K"
  shows "Header_Get_ref s' r2 key = Header_Get_ref s r key"
  using assms by (simp add: attached_def same_values_def Header_Get_ref_values)

lemma Basic_attached:
  assumes wf: "wellformed s req"
  shows "\<exists>s' req2 res. BasicAuthTransport_RoundTrip W t s req = Returns (s', req2, res)
           \<and> attached {''Authorization''} s req s' req2"
proof -
  from cloneRequest_attached [OF wf] obtain s1 req2 where
    c: "cloneRequest s req = Returns (s1, req2)" and a1: "attached {} s req s1 req2" by blast
  from Header_Set_ref_attached [OF a1] obtain s2 where
    h: "SetBasicAuth_ref (base64_Encode W) s1 req2 (Username t) (Password t) = Returns s2"
    and a2: "attached {''Authorization''} s req s2 req2"
    unfolding SetBasicAuth_ref_def by blast
  from send_Returns [OF a2] c h a2 show ?thesis
    by (simp add: BasicAuthTransport_RoundTrip_def)
qed

lemma Cookie_attached_cached:
  assumes wf: "wellformed s req" and cs: "SessionObject t = Some cs"
  shows "\<exists>s' req2 res.
           CookieAuthTransport_RoundTrip W t s req = Returns (t, [], s', Some req2, res)
           \<and> attached {''Cookie''} s req s' req2
           \<and> Header_Get_ref s' req2 ''Cookie'' = cookieHeader (Header_Get_ref s req ''Cookie'') cs"
proof -
  from cloneRequest_attached [OF wf] obtain s1 req2 where
    c: "cloneRequest s req = Returns (s1, req2)" and a0: "attached {} s req s1 req2" by blast
  from a0 have a1: "attached {''Cookie''} s req s1 req2" by (rule attached_mono) simp
  from addCookies_attached [OF a1, of cs] obtain s2 where
    h: "addCookies s1 req2 cs = Returns s2" and a2: "attached {''Cookie''} s req s2 req2"
    and g: "Header_Get_ref s2 req2 ''Cookie''
              = foldl addCookieString (Header_Get_ref s1 req2 ''Cookie'')
                  (filter (\<lambda>c. Cookie.Value c \<noteq> []) cs)"
    by auto
  from attached_Header_Get [OF a0, of "''Cookie''"]
  have "Header_Get_ref s1 req2 ''Cookie'' = Header_Get_ref s req ''Cookie''" by simp
  with g have g': "Header_Get_ref s2 req2 ''Cookie'' = cookieHeader (Header_Get_ref s req ''Cookie'') cs"
    by (simp add: cookieHeader_def foldl_addCookieString_Join)
  from send_Returns [OF a2] c h a2 g' cs show ?thesis
    by (simp add: CookieAuthTransport_RoundTrip_def)
qed

lemma Cookie_login:
  assumes n: "SessionObject t = None"
    and b: "buildAuthRequest W t = Inr areq"
    and l: "authClient_Do W areq = Inr resp"
    and r: "CookieAuthTransport_RoundTrip W (t\<lparr>SessionObject := Some (SetCookies resp)\<rparr>) s req
              = Returns (t', [], s', r2, res)"
  shows "CookieAuthTransport_RoundTrip W t s req = Returns (t', [areq], s', r2, res)"
proof (cases "cloneRequest s req")
  case Panic
  with r show ?thesis by (simp add: CookieAuthTransport_RoundTrip_def)
next
  case (Returns p)
  obtain s1 req2 where p: "p = (s1, req2)" by (cases p)
  show ?thesis
  proof (cases "addCookies s1 req2 (SetCookies resp)")
    case Panic
    with r Returns p show ?thesis by (simp add: CookieAuthTransport_RoundTrip_def)
  next
    case (Returns s2)
    note s2 = this
    show ?thesis
    proof (cases "send (transport W (BasicAuthTransport.Transport t)) s2 req2")
      case Panic
      with r \<open>cloneRequest s req = Returns p\<close> p s2 show ?thesis
        by (simp add: CookieAuthTransport_RoundTrip_def)
    next
      case (Returns x)
      with r \<open>cloneRequest s req = Returns p\<close> p s2 n b l show ?thesis
        by (auto simp: CookieAuthTransport_RoundTrip_def setSessionObject_def)
    qed
  qed
qed

lemma Cookie_attached:
  assumes wf: "wellformed s req"
  shows "\<exists>t' logins s' r2 res.
           CookieAuthTransport_RoundTrip W t s req = Returns (t', logins, s', r2, res)
           \<and> (case r2 of None \<Rightarrow> s' = s | Some req2 \<Rightarrow> attached {''Cookie''} s req s' req2)"
proof (cases "SessionObject t")
  case (Some cs)
  from Cookie_attached_cached [OF wf Some, of W] show ?thesis by fastforce
next
  case None
  show ?thesis
  proof (cases "buildAuthRequest W t")
    case (Inl err)
    with None show ?thesis
      by (simp add: CookieAuthTransport_RoundTrip_def setSessionObject_def)
  next
    case (Inr areq)
    show ?thesis
    proof (cases "authClient_Do W areq")
      case (Inl err)
      with None Inr show ?thesis
        by (simp add: CookieAuthTransport_RoundTrip_def setSessionObject_def)
    next
      case (Inr resp)
      let ?t = "t\<lparr>SessionObject := Some (SetCookies resp)\<rparr>"
      have "SessionObject ?t = Some (SetCookies resp)" by simp
      from Cookie_attached_cached [OF wf this, of W] obtain s' req2 res where
        r: "CookieAuthTransport_RoundTrip W ?t s req = Returns (?t, [], s', Some req2, res)"
        and a: "attached {''Cookie''} s req s' req2" by blast
      from Cookie_login [OF None \<open>buildAuthRequest W t = Inr areq\<close> Inr r] a
      show ?thesis by fastforce
    qed
  qed
qed

lemma JWT_attached:
  assumes wf: "wellformed s req"
  shows "\<exists>s' req2 res. JWTAuthTransport_RoundTrip W t s req = Returns (s', req2, res)
           \<and> attached {''Authorization''} s req s' req2"
proof -
  from cloneRequest_attached [OF wf] obtain s1 req2 where
    c: "cloneRequest s req = Returns (s1, req2)" and a0: "attached {} s req s1 req2" by blast
  from a0 have a1: "attached {''Authorization''} s req s1 req2" by (rule attached_mono) simp
  from wf obtain R where R: "requests s req = Some R" and lt: "req < fresh s"
    by (auto simp: wellformed_def split: option.splits)
  from a0 lt R have R1: "requests s1 req = Some R" by (simp add: attached_def unchanged_def)
  from a0 R obtain R2 where R2: "requests s1 req2 = Some R2"
    by (auto simp: attached_def fresh_copy_def split: option.splits)
  let ?token = "\<lparr>iss = Issuer t, iat = time_Now W 0, exp = time_Now W 1 + 59,
                  qsh = createQueryStringHash W (Method R) (URL R2)\<rparr>"
  show ?thesis
  proof (cases "SignedString W (Secret t) ?token")
    case (Inl err)
    with c R1 R2 a1 show ?thesis by (simp add: JWTAuthTransport_RoundTrip_def Let_def)
  next
    case (Inr jwtStr)
    from Header_Set_ref_attached [OF a0, of "''Authorization''" "''JWT '' @ jwtStr"]
    obtain s2 where h: "Header_Set_ref s1 req2 ''Authorization'' (''JWT '' @ jwtStr) = Returns s2"
      and a2: "attached {''Authorization''} s req s2 req2" by blast
    from send_Returns [OF a2] c R1 R2 Inr h a2 show ?thesis
      by (simp add: JWTAuthTransport_RoundTrip_def Let_def)
  qed
qed

lemma wf_sample: "wellformed sampleStore 0"
  by (simp add: wellformed_def sampleStore_def entries_def)


lemma clone_sample: "cloneRequest sampleStore 0 = Returns (clonedStore, 3)"
  by (simp add: cloneRequest_def sampleStore_def clonedStore_def Let_def entries_def
      new_slice_def map_assign_def elems_def)



lemma basic_sample:
  "BasicAuthTransport_RoundTrip sampleWorld basicTransport sampleStore 0
     = Returns (basicStore, 3, Inr okResponse)"
proof -
  have h: "SetBasicAuth_ref (base64_Encode sampleWorld) clonedStore 3 (Username basicTransport)
             (Password basicTransport) = Returns basicStore"
    by (simp add: SetBasicAuth_ref_def Header_Set_ref_def new_slice_def map_assign_def
        entries_def clonedStore_def basicStore_def sampleWorld_def basicTransport_def)
  have s: "send (transport sampleWorld (BasicAuthTransport.Transport basicTransport)) basicStore 3
             = Returns (Inr okResponse)"
    by (simp add: send_def load_def transport_def sampleWorld_def clonedStore_def basicStore_def
        basicTransport_def)
  show ?thesis
    by (simp add: BasicAuthTransport_RoundTrip_def clone_sample h s)
qed

text \<open>
  C3. For a well-formed request behind a pointer, each of the three round trippers returns
  (it does not panic); the outgoing request is a new struct with the method, URL and body of
  the original and a new header map whose slices are all new and which holds the original's
  values outside the credential header (\<open>Authorization\<close>, or \<open>Cookie\<close>); everything that was
  in the store before the call is unchanged, so the original struct still points to its own
  map and reads as before. When the cookie login fails no copy is made and the store is the
  same.
\<close>

theorem RoundTrip_leaves_request_intact:
  assumes wf: "wellformed s req"
  shows "(\<exists>s' req2 res.
            BasicAuthTransport_RoundTrip W tb s req = Returns (s', req2, res)
            \<and> attached {''Authorization''} s req s' req2
            \<and> requests s' req = requests s req \<and> load s' req = load s req)
       \<and> (\<exists>tc' logins s' r2 res.
            CookieAuthTransport_RoundTrip W tc s req = Returns (tc', logins, s', r2, res)
            \<and> (case r2 of None \<Rightarrow> s' = s | Some req2 \<Rightarrow> attached {''Cookie''} s req s' req2)
            \<and> requests s' req = requests s req \<and> load s' req = load s req)
       \<and> (\<exists>s' req2 res.
            JWTAuthTransport_RoundTrip W tj s req = Returns (s', req2, res)
            \<and> attached {''Authorization''} s req s' req2
            \<and> requests s' req = requests s req \<and> load s' req = load s req)"
proof -
  from Basic_attached [OF wf, of W tb] obtain s' req2 res where
    b: "BasicAuthTransport_RoundTrip W tb s req = Returns (s', req2, res)"
       "attached {''Authorization''} s req s' req2" by blast
  from b(2) have "unchanged s s'" by (simp add: attached_def)
  from unchanged_original [OF wf this] b have 1: "\<exists>s' req2 res.
            BasicAuthTransport_RoundTrip W tb s req = Returns (s', req2, res)
            \<and> attached {''Authorization''} s req s' req2
            \<and> requests s' req = requests s req \<and> load s' req = load s req" by blast
  from Cookie_attached [OF wf, of W tc] obtain tc' logins sc r2 resc where
    c: "CookieAuthTransport_RoundTrip W tc s req = Returns (tc', logins, sc, r2, resc)"
       "case r2 of None \<Rightarrow> sc = s | Some req2 \<Rightarrow> attached {''Cookie''} s req sc req2" by blast
  have "requests sc req = requests s req \<and> load sc req = load s req"
  proof (cases r2)
    case None
    with c show ?thesis by simp
  next
    case (Some q)
    with c have "unchanged s sc" by (simp add: attached_def)
    from unchanged_original [OF wf this] show ?thesis .
  qed
  with c have 2: "\<exists>tc' logins s' r2 res.
            CookieAuthTransport_RoundTrip W tc s req = Returns (tc', logins, s', r2, res)
            \<and> (case r2 of None \<Rightarrow> s' = s | Some req2 \<Rightarrow> attached {''Cookie''} s req s' req2)
            \<and> requests s' req = requests s req \<and> load s' req = load s req" by blast
  from JWT_attached [OF wf, of W tj] obtain sj reqj resj where
    j: "JWTAuthTransport_RoundTrip W tj s req = Returns (sj, reqj, resj)"
       "attached {''Authorization''} s req sj reqj" by blast
  from j(2) have "unchanged s sj" by (simp add: attached_def)
  from unchanged_original [OF wf this] j have 3: "\<exists>s' req2 res.
            JWTAuthTransport_RoundTrip W tj s req = Returns (s', req2, res)
            \<and> attached {''Authorization''} s req s' req2
            \<and> requests s' req = requests s req \<and> load s' req = load s req" by blast
  from 1 2 3 show ?thesis by blast
qed

theorem RoundTrip_leaves_request_intact_witness:
  "wellformed sampleStore 0
   \<and> BasicAuthTransport_RoundTrip sampleWorld basicTransport sampleStore 0
       = Returns (basicStore, 3, Inr okResponse)
   \<and> attached {''Authorization''} sampleStore 0 basicStore 3
   \<and> requests basicStore 0 = requests sampleStore 0
   \<and> load basicStore 0 = load sampleStore 0
   \<and> load basicStore 3 =
       Some \<lparr>Method = ''GET'',
             URL = \<lparr>Scheme = ''http'', Host = ''localhost'', Path = ''/api/v3/work_packages/1'',
                    RawQuery = []\<rparr>,
             Header = [(''Accept'', [''application/json'']),
                       (''Authorization'', [''Basic admin:secret''])],
             Body = None\<rparr>"
proof -
  have l: "load basicStore 3 =
       Some \<lparr>Method = ''GET'',
             URL = \<lparr>Scheme = ''http'', Host = ''localhost'', Path = ''/api/v3/work_packages/1'',
                    RawQuery = []\<rparr>,
             Header = [(''Accept'', [''application/json'']),
                       (''Authorization'', [''Basic admin:secret''])],
             Body = None\<rparr>"
    by (simp add: load_def basicStore_def clonedStore_def entries_def elems_def)
  from RoundTrip_leaves_request_intact [OF wf_sample, of sampleWorld basicTransport]
  have "attached {''Authorization''} sampleStore 0 basicStore 3
        \<and> requests basicStore 0 = requests sampleStore 0
        \<and> load basicStore 0 = load sampleStore 0"
    by (simp add: basic_sample)
  with wf_sample basic_sample l show ?thesis by simp
qed








section \<open>Time and date encodings (work-package.go)\<close>

text \<open>
  \<open>Time\<close> and \<open>Date\<close> are both \<open>time.Time\<close>. A \<open>time.Time\<close> is modelled by what it shows
  in its own location: the calendar date, the clock, the nanoseconds within the second, and
  the offset of the location east of UTC in seconds. \<open>valid_Time\<close> holds of every value of
  the type. The instant of a time is given by its seconds since the Unix epoch, computed from
  the days of the civil date, and its nanoseconds; \<open>Equal\<close> compares instants.
\<close>

record time_Time =
  year :: int
  month :: nat
  day :: nat
  hour :: nat
  minute :: nat
  second :: nat
  nanosecond :: nat
  offset :: int

type_synonym Time = time_Time

type_synonym Date = time_Time

definition isLeap :: "int \<Rightarrow> bool" where
  "isLeap y = (y mod 4 = 0 \<and> (y mod 100 \<noteq> 0 \<or> y mod 400 = 0))"

definition daysIn :: "nat \<Rightarrow> int \<Rightarrow> nat" where
  "daysIn m y =
     (if m = 2 then (if isLeap y then 29 else 28)
      else if m = 4 \<or> m = 6 \<or> m = 9 \<or> m = 11 then 30
      else 31)"

definition valid_Time :: "time_Time \<Rightarrow> bool" where
  "valid_Time t =
     (1 \<le> month t \<and> month t \<le> 12 \<and> 1 \<le> day t \<and> day t \<le> daysIn (month t) (year t)
      \<and> hour t < 24 \<and> minute t < 60 \<and> second t < 60 \<and> nanosecond t < 1000000000)"

definition daysFromCivil :: "int \<Rightarrow> nat \<Rightarrow> nat \<Rightarrow> int" where
  "daysFromCivil y m d =
     (let y' = (if m \<le> 2 then y - 1 else y);
          era = y' div 400;
          yoe = y' - era * 400;
          mp = (if m > 2 then int m - 3 else int m + 9);
          doy = (153 * mp + 2) div 5 + int d - 1;
          doe = yoe * 365 + yoe div 4 - yoe div 100 + doy
      in era * 146097 + doe - 719468)"

definition unixSeconds :: "time_Time \<Rightarrow> int" where
  "unixSeconds t =
     daysFromCivil (year t) (month t) (day t) * 86400
     + int (hour t) * 3600 + int (minute t) * 60 + int (second t) - offset t"

definition Time_Equal :: "Time \<Rightarrow> Time \<Rightarrow> bool" where
  "Time_Equal t u = (unixSeconds t = unixSeconds u \<and> nanosecond t = nanosecond u)"

text \<open>
  \<open>Time.Format\<close> for the two layouts. \<open>appendInt\<close> writes a number with a sign when
  negative and zero-padded to the width; the year has width 4 and all other fields width 2.
  The \<open>Z\<close> of the layout \<open>2006-01-02T15:04:05Z\<close> is a literal character, not a zone: the
  date and clock are written as the time shows them in its own location.
\<close>

definition digitChar :: "nat \<Rightarrow> char" where
  "digitChar k = ''0123456789'' ! k"

fun digits :: "nat \<Rightarrow> string" where
  "digits n = (if n < 10 then [digitChar n] else digits (n div 10) @ [digitChar (n mod 10)])"

declare digits.simps [simp del]

definition appendInt :: "int \<Rightarrow> nat \<Rightarrow> string" where
  "appendInt x width =
     (let ds = digits (nat \<bar>x\<bar>)
      in (if x < 0 then ''-'' else []) @ replicate (width - length ds) (CHR ''0'') @ ds)"

definition Format_DateTime :: "time_Time \<Rightarrow> string" where
  \<open>Format_DateTime t =
     ''"'' @ appendInt (year t) 4 @ ''-'' @ appendInt (int (month t)) 2 @ ''-''
     @ appendInt (int (day t)) 2 @ ''T'' @ appendInt (int (hour t)) 2 @ '':''
     @ appendInt (int (minute t)) 2 @ '':'' @ appendInt (int (second t)) 2 @ ''Z"''\<close>

definition Format_Date :: "time_Time \<Rightarrow> string" where
  \<open>Format_Date t =
     ''"'' @ appendInt (year t) 4 @ ''-'' @ appendInt (int (month t)) 2 @ ''-''
     @ appendInt (int (day t)) 2 @ ''"''\<close>

text \<open>
  \<open>time.Parse\<close> for the two layouts. The year is exactly four digits; month, day, minute
  and second are two digits, the hour one or two; a fraction after the seconds is read even
  though the layout has none; the day is checked against the month once the text is consumed.
  A layout without a zone yields a time in UTC.
\<close>

definition isDigit :: "char \<Rightarrow> bool" where
  "isDigit c = (CHR ''0'' \<le> c \<and> c \<le> CHR ''9'')"

definition digitVal :: "char \<Rightarrow> nat" where
  "digitVal c = of_char c - 48"

definition atoiDigits :: "string \<Rightarrow> nat" where
  "atoiDigits ds = foldl (\<lambda>n c. n * 10 + digitVal c) 0 ds"

fun bindE :: "error + 'a \<Rightarrow> ('a \<Rightarrow> error + 'b) \<Rightarrow> error + 'b" where
  "bindE (Inl e) f = Inl e"
| "bindE (Inr x) f = f x"

definition skip :: "string \<Rightarrow> string \<Rightarrow> error + string" where
  "skip val prefix =
     (if take (length prefix) val = prefix then Inr (drop (length prefix) val)
      else Inl (ErrParseTime ''cannot parse''))"

definition getnum :: "string \<Rightarrow> bool \<Rightarrow> error + nat \<times> string" where
  "getnum s fixed =
     (case s of
        [] \<Rightarrow> Inl (ErrParseTime ''cannot parse'')
      | c1 # r1 \<Rightarrow>
          if \<not> isDigit c1 then Inl (ErrParseTime ''cannot parse'')
          else
            (case r1 of
               [] \<Rightarrow> if fixed then Inl (ErrParseTime ''cannot parse'') else Inr (digitVal c1, r1)
             | c2 # r2 \<Rightarrow>
                 if \<not> isDigit c2 then
                   (if fixed then Inl (ErrParseTime ''cannot parse'') else Inr (digitVal c1, r1))
                 else Inr (digitVal c1 * 10 + digitVal c2, r2)))"

definition longYear :: "string \<Rightarrow> error + int \<times> string" where
  "longYear val =
     (if length val < 4 \<or> \<not> list_all isDigit (take 4 val) then Inl (ErrParseTime ''cannot parse'')
      else Inr (int (atoiDigits (take 4 val)), drop 4 val))"

definition ranged :: "string \<Rightarrow> (nat \<Rightarrow> bool) \<Rightarrow> error + nat \<times> string \<Rightarrow> error + nat \<times> string" where
  "ranged what ok r =
     bindE r (\<lambda>(n, rest). if ok n then Inr (n, rest) else Inl (ErrParseTime (what @ '' out of range'')))"

definition fractionalSecond :: "string \<Rightarrow> nat \<times> string" where
  "fractionalSecond val =
     (case val of
        c # d # rest \<Rightarrow>
          if (c = CHR ''.'' \<or> c = CHR '','') \<and> isDigit d then
            (let ds = take 9 (takeWhile isDigit (d # rest))
             in (atoiDigits ds * 10 ^ (9 - length ds), dropWhile isDigit (d # rest)))
          else (0, val)
      | _ \<Rightarrow> (0, val))"

definition checkDay :: "time_Time \<Rightarrow> error + time_Time" where
  "checkDay t =
     (if day t < 1 \<or> day t > daysIn (month t) (year t) then Inl (ErrParseTime ''day out of range'')
      else Inr t)"

definition noExtraText :: "string \<Rightarrow> error + unit" where
  "noExtraText val = (if val \<noteq> [] then Inl (ErrParseTime ''extra text'') else Inr ())"

definition Parse_DateTime :: "string \<Rightarrow> error + time_Time" where
  \<open>Parse_DateTime val =
     bindE (skip val ''"'') (\<lambda>val.
     bindE (longYear val) (\<lambda>(year, val).
     bindE (skip val ''-'') (\<lambda>val.
     bindE (ranged ''month'' (\<lambda>m. 0 < m \<and> m \<le> 12) (getnum val True)) (\<lambda>(month, val).
     bindE (skip val ''-'') (\<lambda>val.
     bindE (getnum val True) (\<lambda>(day, val).
     bindE (skip val ''T'') (\<lambda>val.
     bindE (ranged ''hour'' (\<lambda>h. h < 24) (getnum val False)) (\<lambda>(hour, val).
     bindE (skip val '':'') (\<lambda>val.
     bindE (ranged ''minute'' (\<lambda>m. m < 60) (getnum val True)) (\<lambda>(minute, val).
     bindE (skip val '':'') (\<lambda>val.
     bindE (ranged ''second'' (\<lambda>s. s < 60) (getnum val True)) (\<lambda>(second, val).
     (let (nsec, val) = fractionalSecond val in
     bindE (skip val ''Z"'') (\<lambda>val.
     bindE (noExtraText val) (\<lambda>u.
       checkDay \<lparr>year = year, month = month, day = day, hour = hour, minute = minute,
                 second = second, nanosecond = nsec, offset = 0\<rparr>)))))))))))))))\<close>

definition Parse_Date :: "string \<Rightarrow> error + time_Time" where
  \<open>Parse_Date val =
     bindE (skip val ''"'') (\<lambda>val.
     bindE (longYear val) (\<lambda>(year, val).
     bindE (skip val ''-'') (\<lambda>val.
     bindE (ranged ''month'' (\<lambda>m. 0 < m \<and> m \<le> 12) (getnum val True)) (\<lambda>(month, val).
     bindE (skip val ''-'') (\<lambda>val.
     bindE (getnum val True) (\<lambda>(day, val).
     bindE (skip val ''"'') (\<lambda>val.
     bindE (noExtraText val) (\<lambda>u.
       checkDay \<lparr>year = year, month = month, day = day, hour = 0, minute = 0,
                 second = 0, nanosecond = 0, offset = 0\<rparr>))))))))\<close>

text \<open>
  The four methods. \<open>UnmarshalJSON\<close> writes through its receiver; the model returns the
  error and the value of the receiver after the call.
\<close>

definition Time_MarshalJSON :: "Time \<Rightarrow> string" where
  "Time_MarshalJSON t = Format_DateTime t"

definition Time_UnmarshalJSON :: "Time \<Rightarrow> string \<Rightarrow> error option \<times> Time" where
  "Time_UnmarshalJSON t b =
     (if b = ''null'' then (None, t)
      else (case Parse_DateTime b of
              Inl err \<Rightarrow> (Some err, t)
            | Inr ti \<Rightarrow> (None, ti)))"

definition Date_MarshalJSON :: "Date \<Rightarrow> string" where
  "Date_MarshalJSON t = Format_Date t"

definition Date_UnmarshalJSON :: "Date \<Rightarrow> string \<Rightarrow> error option \<times> Date" where
  "Date_UnmarshalJSON t b =
     (if b = ''null'' then (None, t)
      else (case Parse_Date b of
              Inl err \<Rightarrow> (Some err, t)
            | Inr ti \<Rightarrow> (None, ti)))"

definition zeroTime :: time_Time where
  "zeroTime = \<lparr>year = 1, month = 1, day = 1, hour = 0, minute = 0, second = 0, nanosecond = 0,
               offset = 0\<rparr>"

lemmas parse_defs = Parse_DateTime_def Parse_Date_def skip_def longYear_def getnum_def ranged_def
  fractionalSecond_def checkDay_def noExtraText_def isDigit_def digitVal_def atoiDigits_def
  daysIn_def isLeap_def

subsection \<open>Sample times\<close>

definition noon :: time_Time where
  "noon = \<lparr>year = 2020, month = 6, day = 1, hour = 12, minute = 5, second = 9, nanosecond = 0,
           offset = 0\<rparr>"

definition halfSecond :: time_Time where
  "halfSecond = \<lparr>year = 1970, month = 1, day = 1, hour = 0, minute = 0, second = 0,
                 nanosecond = 500000000, offset = 0\<rparr>"

definition noonCEST :: time_Time where
  "noonCEST = \<lparr>year = 2020, month = 6, day = 1, hour = 12, minute = 0, second = 0,
               nanosecond = 0, offset = 7200\<rparr>"

definition year10000 :: time_Time where
  "year10000 = \<lparr>year = 10000, month = 1, day = 1, hour = 0, minute = 0, second = 0,
                nanosecond = 0, offset = 0\<rparr>"

subsection \<open>Encoding and decoding again\<close>

lemma digit_cases:
  assumes "k < (10::nat)"
  shows "k = 0 \<or> k = 1 \<or> k = 2 \<or> k = 3 \<or> k = 4 \<or> k = 5 \<or> k = 6 \<or> k = 7 \<or> k = 8 \<or> k = 9"
  using assms by arith

lemma digitChar_digit:
  assumes "k < 10"
  shows "isDigit (digitChar k)" and "digitVal (digitChar k) = k"
  using digit_cases [OF assms] by (auto simp: digitChar_def isDigit_def digitVal_def)

lemma digits_1: "n < 10 \<Longrightarrow> digits n = [digitChar n]"
  by (simp add: digits.simps)

lemma digits_2:
  "10 \<le> n \<Longrightarrow> n < 100 \<Longrightarrow> digits n = [digitChar (n div 10), digitChar (n mod 10)]"
  by (subst digits.simps) (simp add: digits_1)

lemma digits_3:
  "100 \<le> n \<Longrightarrow> n < 1000 \<Longrightarrow>
   digits n = [digitChar (n div 100), digitChar (n div 10 mod 10), digitChar (n mod 10)]"
  by (subst digits.simps) (simp add: digits_2 div_mult2_eq [symmetric])

lemma digits_4:
  "1000 \<le> n \<Longrightarrow> n < 10000 \<Longrightarrow>
   digits n = [digitChar (n div 1000), digitChar (n div 100 mod 10), digitChar (n div 10 mod 10),
               digitChar (n mod 10)]"
  by (subst digits.simps) (simp add: digits_3 div_mult2_eq [symmetric])

lemma appendInt_2:
  assumes "n < 100"
  shows "appendInt (int n) 2 = [digitChar (n div 10), digitChar (n mod 10)]"
proof (cases "n < 10")
  case True
  then show ?thesis by (simp add: appendInt_def digits_1 digitChar_def)
next
  case False
  with assms show ?thesis by (simp add: appendInt_def digits_2)
qed

lemma replicate_zeros:
  "replicate 3 c = [c, c, c]" "replicate 2 c = [c, c]" "replicate (Suc 0) c = [c]"
  by (simp_all add: numeral_3_eq_3 numeral_2_eq_2)

lemma appendInt_4:
  assumes "0 \<le> y" "y \<le> 9999"
  shows "appendInt y 4 =
           [digitChar (nat y div 1000), digitChar (nat y div 100 mod 10),
            digitChar (nat y div 10 mod 10), digitChar (nat y mod 10)]"
proof -
  let ?n = "nat y"
  from assms have n: "?n < 10000" by simp
  consider "?n < 10" | "10 \<le> ?n" "?n < 100" | "100 \<le> ?n" "?n < 1000" | "1000 \<le> ?n"
    by arith
  then have "replicate (4 - length (digits ?n)) (CHR ''0'') @ digits ?n =
           [digitChar (?n div 1000), digitChar (?n div 100 mod 10),
            digitChar (?n div 10 mod 10), digitChar (?n mod 10)]"
  proof cases
    case 1
    then show ?thesis by (simp add: digits_1 digitChar_def replicate_zeros)
  next
    case 2
    then show ?thesis by (simp add: digits_2 digitChar_def replicate_zeros)
  next
    case 3
    then show ?thesis by (simp add: digits_3 digitChar_def replicate_zeros)
  next
    case 4
    with n show ?thesis by (simp add: digits_4)
  qed
  with assms show ?thesis by (simp add: appendInt_def)
qed

lemma getnum_appendInt_2:
  assumes "n < 100"
  shows "getnum (appendInt (int n) 2 @ rest) fixed = Inr (n, rest)"
proof -
  from assms have a: "n div 10 < 10" and b: "n mod 10 < 10" by simp_all
  show ?thesis
    by (simp add: appendInt_2 [OF assms] getnum_def digitChar_digit [OF a] digitChar_digit [OF b])
qed

lemma four_digits:
  fixes n :: nat
  shows "((n div 1000 * 10 + n div 100 mod 10) * 10 + n div 10 mod 10) * 10 + n mod 10 = n"
proof -
  have a: "n div 100 = n div 1000 * 10 + n div 100 mod 10"
    using div_mult_mod_eq [of "n div 100" 10] by (simp add: div_mult2_eq [symmetric])
  have b: "n div 10 = n div 100 * 10 + n div 10 mod 10"
    using div_mult_mod_eq [of "n div 10" 10] by (simp add: div_mult2_eq [symmetric])
  have c: "n = n div 10 * 10 + n mod 10" by simp
  from a b c show ?thesis by metis
qed

lemma longYear_appendInt_4:
  assumes "0 \<le> y" "y \<le> 9999"
  shows "longYear (appendInt y 4 @ rest) = Inr (y, rest)"
proof -
  let ?n = "nat y"
  from assms have a: "?n div 1000 < 10" and b: "?n div 100 mod 10 < 10"
    and c: "?n div 10 mod 10 < 10" and d: "?n mod 10 < 10" by simp_all
  have "atoiDigits [digitChar (?n div 1000), digitChar (?n div 100 mod 10),
            digitChar (?n div 10 mod 10), digitChar (?n mod 10)]
        = ((?n div 1000 * 10 + ?n div 100 mod 10) * 10 + ?n div 10 mod 10) * 10 + ?n mod 10"
    by (simp add: atoiDigits_def digitChar_digit [OF a] digitChar_digit [OF b]
        digitChar_digit [OF c] digitChar_digit [OF d])
  then have v: "atoiDigits [digitChar (?n div 1000), digitChar (?n div 100 mod 10),
            digitChar (?n div 10 mod 10), digitChar (?n mod 10)] = ?n"
    by (simp only: four_digits)
  have l: "list_all isDigit [digitChar (?n div 1000), digitChar (?n div 100 mod 10),
            digitChar (?n div 10 mod 10), digitChar (?n mod 10)]"
    by (simp add: digitChar_digit [OF a] digitChar_digit [OF b]
        digitChar_digit [OF c] digitChar_digit [OF d])
  show ?thesis
    unfolding appendInt_4 [OF assms] longYear_def
    using assms(1) l v by simp
qed

lemma skip_literal: "skip (p @ rest) p = Inr rest"
  by (simp add: skip_def)

lemma skip_end: "skip p p = Inr []"
  by (simp add: skip_def)

lemma fractionalSecond_Z: \<open>fractionalSecond ''Z"'' = (0, ''Z"'')\<close>
  by (simp add: fractionalSecond_def)

lemma ranged_month:
  "0 < m \<Longrightarrow> m \<le> 12 \<Longrightarrow> ranged what (\<lambda>m. 0 < m \<and> m \<le> 12) (Inr (m, rest)) = Inr (m, rest)"
  by (simp add: ranged_def)

lemma ranged_less:
  "n < k \<Longrightarrow> ranged what (\<lambda>h. h < k) (Inr (n, rest)) = Inr (n, rest)"
  by (simp add: ranged_def)

lemma noExtraText_Nil: "noExtraText [] = Inr ()"
  by (simp add: noExtraText_def)

lemma checkDay_valid:
  "1 \<le> day t \<Longrightarrow> day t \<le> daysIn (month t) (year t) \<Longrightarrow> checkDay t = Inr t"
  by (simp add: checkDay_def)

lemma Parse_Date_Format:
  assumes v: "valid_Time t" and y: "0 \<le> year t" "year t \<le> 9999"
  shows "Parse_Date (Format_Date t) =
           Inr \<lparr>year = year t, month = month t, day = day t, hour = 0, minute = 0, second = 0,
                nanosecond = 0, offset = 0\<rparr>"
proof -
  from v have m: "0 < month t" "month t \<le> 12" and d: "1 \<le> day t" "day t \<le> daysIn (month t) (year t)"
    by (simp_all add: valid_Time_def)
  from m have r1: "month t < 100" by simp
  from d have r2: "day t < 100" by (simp add: daysIn_def split: if_splits)
  let ?t = "\<lparr>year = year t, month = month t, day = day t, hour = 0, minute = 0, second = 0,
                nanosecond = 0, offset = 0\<rparr>"
  have c: "checkDay ?t = Inr ?t"
    using d by (intro checkDay_valid) simp_all
  show ?thesis
    unfolding Parse_Date_def Format_Date_def
    by (simp only: skip_literal skip_end bindE.simps longYear_appendInt_4 [OF y] prod.case
        getnum_appendInt_2 [OF r1] getnum_appendInt_2 [OF r2] ranged_month [OF m]
        noExtraText_Nil c)
qed

lemma Parse_DateTime_Format:
  assumes v: "valid_Time t" and y: "0 \<le> year t" "year t \<le> 9999"
  shows "Parse_DateTime (Format_DateTime t) = Inr (t\<lparr>nanosecond := 0, offset := 0\<rparr>)"
proof -
  from v have m: "0 < month t" "month t \<le> 12" and d: "1 \<le> day t" "day t \<le> daysIn (month t) (year t)"
    and h: "hour t < 24" and mi: "minute t < 60" and se: "second t < 60"
    by (simp_all add: valid_Time_def)
  from m have r1: "month t < 100" by simp
  from d have r2: "day t < 100" by (simp add: daysIn_def split: if_splits)
  from h mi se have r3: "hour t < 100" and r4: "minute t < 100" and r5: "second t < 100"
    by simp_all
  let ?t = "\<lparr>year = year t, month = month t, day = day t, hour = hour t, minute = minute t,
             second = second t, nanosecond = 0, offset = 0\<rparr>"
  have c: "checkDay ?t = Inr ?t"
    using d by (intro checkDay_valid) simp_all
  have e: "?t = t\<lparr>nanosecond := 0, offset := 0\<rparr>" by simp
  have "Parse_DateTime (Format_DateTime t) = Inr ?t"
    unfolding Parse_DateTime_def Format_DateTime_def
    by (simp only: skip_literal skip_end bindE.simps longYear_appendInt_4 [OF y] prod.case
        getnum_appendInt_2 [OF r1] getnum_appendInt_2 [OF r2] getnum_appendInt_2 [OF r3]
        getnum_appendInt_2 [OF r4] getnum_appendInt_2 [OF r5] ranged_month [OF m]
        ranged_less [OF h] ranged_less [OF mi] ranged_less [OF se]
        fractionalSecond_Z Let_def noExtraText_Nil c)
  with e show ?thesis by simp
qed

lemma Format_not_null: "Format_DateTime t \<noteq> ''null''" "Format_Date t \<noteq> ''null''"
  by (simp_all add: Format_DateTime_def Format_Date_def)

lemma digits_eval:
  "digits 1970 = ''1970''" "digits 2020 = ''2020''" "digits 10000 = ''10000''"
  "digits 0 = ''0''" "digits 1 = ''1''" "digits (Suc 0) = ''1''" "digits 5 = ''5''" "digits 6 = ''6''" "digits 9 = ''9''"
  "digits 12 = ''12''"
  by (simp_all add: digits.simps digitChar_def)

text \<open>
  C8 (as amended). For every time with a year from 0 to 9999: decoding its encoding returns no
  error and the time with the same date and clock in UTC and no nanoseconds, so a time in UTC
  with whole seconds comes back as an equal instant; decoding its date-only encoding returns
  no error and midnight UTC of the same calendar date; decoding \<open>null\<close> returns no error and
  leaves the receiver as it was, for both types.
\<close>

theorem JSON_time_roundtrip:
  assumes "valid_Time t" "0 \<le> year t" "year t \<le> 9999"
  shows "Time_UnmarshalJSON t0 (Time_MarshalJSON t) = (None, t\<lparr>nanosecond := 0, offset := 0\<rparr>)
       \<and> (nanosecond t = 0 \<and> offset t = 0 \<longrightarrow>
            Time_Equal t (snd (Time_UnmarshalJSON t0 (Time_MarshalJSON t))))
       \<and> Date_UnmarshalJSON t0 (Date_MarshalJSON t) =
           (None, \<lparr>year = year t, month = month t, day = day t, hour = 0, minute = 0,
                   second = 0, nanosecond = 0, offset = 0\<rparr>)
       \<and> Time_UnmarshalJSON t0 ''null'' = (None, t0)
       \<and> Date_UnmarshalJSON t0 ''null'' = (None, t0)"
proof -
  have a: "Time_UnmarshalJSON t0 (Time_MarshalJSON t) = (None, t\<lparr>nanosecond := 0, offset := 0\<rparr>)"
    by (simp add: Time_UnmarshalJSON_def Time_MarshalJSON_def Format_not_null
        Parse_DateTime_Format [OF assms])
  have b: "Date_UnmarshalJSON t0 (Date_MarshalJSON t) =
           (None, \<lparr>year = year t, month = month t, day = day t, hour = 0, minute = 0,
                   second = 0, nanosecond = 0, offset = 0\<rparr>)"
    by (simp add: Date_UnmarshalJSON_def Date_MarshalJSON_def Format_not_null
        Parse_Date_Format [OF assms])
  have c: "Time_UnmarshalJSON t0 ''null'' = (None, t0)" "Date_UnmarshalJSON t0 ''null'' = (None, t0)"
    by (simp_all add: Time_UnmarshalJSON_def Date_UnmarshalJSON_def)
  have d: "nanosecond t = 0 \<and> offset t = 0 \<longrightarrow>
            Time_Equal t (snd (Time_UnmarshalJSON t0 (Time_MarshalJSON t)))"
    unfolding a by (simp add: Time_Equal_def unixSeconds_def)
  from a b c d show ?thesis by simp
qed

theorem JSON_time_roundtrip_witness:
  \<open>valid_Time noon
   \<and> Time_MarshalJSON noon = ''"2020-06-01T12:05:09Z"''
   \<and> Time_UnmarshalJSON zeroTime ''"2020-06-01T12:05:09Z"'' = (None, noon)
   \<and> Time_Equal noon (snd (Time_UnmarshalJSON zeroTime ''"2020-06-01T12:05:09Z"''))
   \<and> Date_MarshalJSON noon = ''"2020-06-01"''
   \<and> Date_UnmarshalJSON zeroTime ''"2020-06-01"'' =
       (None, \<lparr>year = 2020, month = 6, day = 1, hour = 0, minute = 0, second = 0,
               nanosecond = 0, offset = 0\<rparr>)\<close>
proof -
  have v: "valid_Time noon" and y: "0 \<le> year noon" "year noon \<le> 9999"
    by (simp_all add: valid_Time_def noon_def daysIn_def)
  have m: \<open>Time_MarshalJSON noon = ''"2020-06-01T12:05:09Z"''\<close>
    by (simp add: Time_MarshalJSON_def Format_DateTime_def noon_def appendInt_def digits_eval
        replicate_zeros)
  have d: \<open>Date_MarshalJSON noon = ''"2020-06-01"''\<close>
    by (simp add: Date_MarshalJSON_def Format_Date_def noon_def appendInt_def digits_eval
        replicate_zeros)
  have n: "nanosecond noon = 0 \<and> offset noon = 0" and n': "noon\<lparr>nanosecond := 0, offset := 0\<rparr> = noon"
    by (simp_all add: noon_def)
  have f: "\<lparr>year = year noon, month = month noon, day = day noon, hour = 0, minute = 0,
             second = 0, nanosecond = 0, offset = 0\<rparr>
           = \<lparr>year = 2020, month = 6, day = 1, hour = 0, minute = 0, second = 0,
               nanosecond = 0, offset = 0\<rparr>"
    by (simp add: noon_def)
  note r = JSON_time_roundtrip [OF v y, of zeroTime, unfolded m d n' f]
  from r have 1: \<open>Time_UnmarshalJSON zeroTime ''"2020-06-01T12:05:09Z"'' = (None, noon)\<close>
    by (rule conjunct1)
  from r n have 2: \<open>Time_Equal noon (snd (Time_UnmarshalJSON zeroTime ''"2020-06-01T12:05:09Z"''))\<close>
    by blast
  from r have 3: \<open>Date_UnmarshalJSON zeroTime ''"2020-06-01"'' =
       (None, \<lparr>year = 2020, month = 6, day = 1, hour = 0, minute = 0, second = 0,
               nanosecond = 0, offset = 0\<rparr>)\<close>
    by blast
  from v m 1 2 d 3 show ?thesis by blast
qed

text \<open>
  A time with half a second comes back without it; a time shown at offset +02:00 comes back
  as the same clock in UTC, two hours later; the date of the year 10000 is written with five
  digits and does not parse.
\<close>

theorem JSON_time_roundtrip_counterexample:
  \<open>valid_Time halfSecond
   \<and> Time_MarshalJSON halfSecond = ''"1970-01-01T00:00:00Z"''
   \<and> Time_UnmarshalJSON zeroTime ''"1970-01-01T00:00:00Z"'' = (None, halfSecond\<lparr>nanosecond := 0\<rparr>)
   \<and> \<not> Time_Equal halfSecond (halfSecond\<lparr>nanosecond := 0\<rparr>)
   \<and> valid_Time noonCEST
   \<and> Time_MarshalJSON noonCEST = ''"2020-06-01T12:00:00Z"''
   \<and> Time_UnmarshalJSON zeroTime ''"2020-06-01T12:00:00Z"'' = (None, noonCEST\<lparr>offset := 0\<rparr>)
   \<and> \<not> Time_Equal noonCEST (noonCEST\<lparr>offset := 0\<rparr>)
   \<and> valid_Time year10000
   \<and> Date_MarshalJSON year10000 = ''"10000-01-01"''
   \<and> Date_UnmarshalJSON zeroTime ''"10000-01-01"'' = (Some (ErrParseTime ''cannot parse''), zeroTime)\<close>
proof -
  have v: "valid_Time halfSecond" "valid_Time noonCEST" "valid_Time year10000"
    by (simp_all add: valid_Time_def halfSecond_def noonCEST_def year10000_def daysIn_def)
  have m1: \<open>Time_MarshalJSON halfSecond = ''"1970-01-01T00:00:00Z"''\<close>
    by (simp add: Time_MarshalJSON_def Format_DateTime_def halfSecond_def appendInt_def
        digits_eval replicate_zeros)
  have u1: \<open>Time_UnmarshalJSON zeroTime ''"1970-01-01T00:00:00Z"'' = (None, halfSecond\<lparr>nanosecond := 0\<rparr>)\<close>
    by (simp add: Time_UnmarshalJSON_def halfSecond_def parse_defs)
  have e1: "\<not> Time_Equal halfSecond (halfSecond\<lparr>nanosecond := 0\<rparr>)"
    by (simp add: Time_Equal_def halfSecond_def)
  have m2: \<open>Time_MarshalJSON noonCEST = ''"2020-06-01T12:00:00Z"''\<close>
    by (simp add: Time_MarshalJSON_def Format_DateTime_def noonCEST_def appendInt_def
        digits_eval replicate_zeros)
  have u2: \<open>Time_UnmarshalJSON zeroTime ''"2020-06-01T12:00:00Z"'' = (None, noonCEST\<lparr>offset := 0\<rparr>)\<close>
    by (simp add: Time_UnmarshalJSON_def noonCEST_def parse_defs)
  have e2: "\<not> Time_Equal noonCEST (noonCEST\<lparr>offset := 0\<rparr>)"
    by (simp add: Time_Equal_def unixSeconds_def noonCEST_def)
  have m3: \<open>Date_MarshalJSON year10000 = ''"10000-01-01"''\<close>
    by (simp add: Date_MarshalJSON_def Format_Date_def year10000_def appendInt_def
        digits_eval replicate_zeros)
  have u3: \<open>Date_UnmarshalJSON zeroTime ''"10000-01-01"'' = (Some (ErrParseTime ''cannot parse''), zeroTime)\<close>
    by (simp add: Date_UnmarshalJSON_def parse_defs)
  from v m1 u1 e1 m2 u2 e2 m3 u3 show ?thesis by simp
qed

end
